theory Spec2Isabelle
  imports Main "HOL-Library.Log_Nat" "HOL-Library.AList"
begin

section \<open>Data model (models.py)\<close>

datatype PriorityEnum = high | medium | low

datatype CategoryEnum = high_volume | low_volume

datatype StatusEnum = ok | below_threshold | out_of_stock

text \<open>
  A product, both as the pydantic model \<open>Product\<close> and as the dictionary
  \<open>product.dict()\<close> that is kept in the JSON file. The three quantities are Python
  integers, which are unbounded. \<open>category\<close> is \<open>Optional[CategoryEnum] = None\<close>.
\<close>

record Product =
  product_id :: string
  name :: string
  stock_quantity :: int
  min_threshold :: int
  restock_quantity :: int
  priority :: PriorityEnum
  category :: "CategoryEnum option"

record PurchaseRequest =
  quantity :: int

record InventoryResponse =
  ir_product_id :: string
  ir_stock_quantity :: int
  ir_status :: StatusEnum
  ir_priority :: PriorityEnum

record ProductResponse =
  pr_message :: string
  pr_product :: Product

record PurchaseResponse =
  pu_message :: string
  remaining_stock :: int
  restock_triggered :: bool

text \<open>The dictionary returned by \<open>manual_restock\<close>.\<close>

record RestockResponse =
  mr_message :: string
  mr_product_id :: string
  stock_before :: int
  stock_after :: int
  mr_restock_quantity :: int

text \<open>
  What a call can raise. The detail of the HTTP 400 for insufficient stock is the f-string
  \<open>Insufficient stock. Available: {a}, Requested: {r}\<close>; it is kept as its two arguments.
\<close>

datatype detail =
    Product_already_exists
  | Product_not_found
  | Insufficient_stock (available: int) (requested: int)

datatype error =
    HTTPException nat detail
  | OverflowError
  | ValueError

definition validate_positive_numbers :: "int \<Rightarrow> error + int" where
  "validate_positive_numbers v = (if v < 0 then Inl ValueError else Inr v)"

definition validate_quantity :: "int \<Rightarrow> error + int" where
  "validate_quantity v = (if v \<le> 0 then Inl ValueError else Inr v)"

text \<open>
  The validator of \<open>Product\<close> runs on \<open>stock_quantity\<close>, \<open>min_threshold\<close> and
  \<open>restock_quantity\<close>, in this order, before a handler sees the product.
\<close>

definition validate_Product :: "Product \<Rightarrow> error + Product" where
  "validate_Product p =
     (case validate_positive_numbers (stock_quantity p) of
        Inl e \<Rightarrow> Inl e
      | Inr s \<Rightarrow>
          (case validate_positive_numbers (min_threshold p) of
             Inl e \<Rightarrow> Inl e
           | Inr t \<Rightarrow>
               (case validate_positive_numbers (restock_quantity p) of
                  Inl e \<Rightarrow> Inl e
                | Inr r \<Rightarrow>
                    Inr (p\<lparr>stock_quantity := s, min_threshold := t, restock_quantity := r\<rparr>))))"

definition validate_PurchaseRequest :: "PurchaseRequest \<Rightarrow> error + PurchaseRequest" where
  "validate_PurchaseRequest r =
     (case validate_quantity (quantity r) of
        Inl e \<Rightarrow> Inl e
      | Inr v \<Rightarrow> Inr (r\<lparr>quantity := v\<rparr>))"

section \<open>Python floats\<close>

text \<open>
  The source multiplies integers by the float literals \<open>0.5\<close>, \<open>0.25\<close>, \<open>1.2\<close> and
  \<open>1.1\<close>. A Python float is an IEEE 754 binary64 number. A finite one is kept here as
  \<open>Finite m e\<close>, which denotes \<open>m * 2 ^ e\<close>; every operation below is exact integer
  arithmetic on this pair. Signed zeros are not told apart (nothing in the program can
  see the sign of a zero).
\<close>

datatype pyfloat = Finite int int | PInf | NInf | NaN

text \<open>
  \<open>rne_shift a s\<close>, for \<open>a \<ge> 0\<close>: the integer nearest to \<open>a / 2 ^ s\<close>, a tie going to
  the even one (the rounding mode of binary64 arithmetic and of the conversion of an
  \<open>int\<close> to a \<open>float\<close>).
\<close>

definition rne_shift :: "int \<Rightarrow> nat \<Rightarrow> int" where
  "rne_shift a s =
     (let q = a div 2 ^ s; r = a mod 2 ^ s
      in if 2 ^ s < 2 * r \<or> (2 * r = 2 ^ s \<and> odd q) then q + 1 else q)"

text \<open>
  \<open>round_binary64 m e\<close>: the binary64 number nearest to \<open>m * 2 ^ e\<close>. The significand
  keeps 53 bits, and no bit below \<open>2 ^ - 1074\<close> (the subnormal range); a result of
  magnitude \<open>2 ^ 1024\<close> or more is an infinity. \<open>bitlen\<close> is \<open>int.bit_length\<close>.
\<close>

definition round_binary64 :: "int \<Rightarrow> int \<Rightarrow> pyfloat" where
  "round_binary64 m e =
     (let s = nat (max (bitlen \<bar>m\<bar> - 53) (- 1074 - e));
          m' = rne_shift \<bar>m\<bar> s;
          e' = e + int s
      in if 0 < m' \<and> 1024 < bitlen m' + e'
         then (if m < 0 then NInf else PInf)
         else Finite (sgn m * m') e')"

text \<open>\<open>float(n)\<close> for an \<open>int\<close>: correctly rounded, and OverflowError beyond the range.\<close>

definition float_of_int :: "int \<Rightarrow> error + pyfloat" where
  "float_of_int n =
     (case round_binary64 n 0 of
        Finite m e \<Rightarrow> Inr (Finite m e)
      | _ \<Rightarrow> Inl OverflowError)"

text \<open>\<open>x * y\<close> on floats: never raises, overflows to an infinity.\<close>

fun float_sign :: "pyfloat \<Rightarrow> int" where
  "float_sign (Finite m e) = sgn m"
| "float_sign PInf = 1"
| "float_sign NInf = - 1"
| "float_sign NaN = 0"

fun float_mul :: "pyfloat \<Rightarrow> pyfloat \<Rightarrow> pyfloat" where
  "float_mul (Finite m1 e1) (Finite m2 e2) = round_binary64 (m1 * m2) (e1 + e2)"
| "float_mul NaN y = NaN"
| "float_mul x NaN = NaN"
| "float_mul x y =
     (if float_sign x * float_sign y = 0 then NaN
      else if float_sign x * float_sign y < 0 then NInf else PInf)"

text \<open>
  \<open>n * x\<close> for an \<open>int\<close> \<open>n\<close> and a float \<open>x\<close>: the integer is converted first (which
  is where OverflowError can come from), then the floats are multiplied.
\<close>

definition int_mul_float :: "int \<Rightarrow> pyfloat \<Rightarrow> error + pyfloat" where
  "int_mul_float n x =
     (case float_of_int n of
        Inl err \<Rightarrow> Inl err
      | Inr y \<Rightarrow> Inr (float_mul y x))"

text \<open>\<open>int(x)\<close> for a float: truncation toward zero; an infinity raises OverflowError.\<close>

fun int_of_float :: "pyfloat \<Rightarrow> error + int" where
  "int_of_float (Finite m e) =
     Inr (if 0 \<le> e then m * 2 ^ nat e else sgn m * (\<bar>m\<bar> div 2 ^ nat (- e)))"
| "int_of_float PInf = Inl OverflowError"
| "int_of_float NInf = Inl OverflowError"
| "int_of_float NaN = Inl ValueError"

text \<open>\<open>n <= x\<close> for an \<open>int\<close> \<open>n\<close> and a float \<open>x\<close>: Python compares the two exactly.\<close>

fun int_le_float :: "int \<Rightarrow> pyfloat \<Rightarrow> bool" where
  "int_le_float n (Finite m e) =
     (if 0 \<le> e then n \<le> m * 2 ^ nat e else n * 2 ^ nat (- e) \<le> m)"
| "int_le_float n PInf = True"
| "int_le_float n NInf = False"
| "int_le_float n NaN = False"

text \<open>The four literals, as the binary64 numbers nearest to them.\<close>

definition float_0_5 :: pyfloat where
  "float_0_5 = Finite 1 (- 1)"

definition float_0_25 :: pyfloat where
  "float_0_25 = Finite 1 (- 2)"

definition float_1_2 :: pyfloat where
  "float_1_2 = Finite 5404319552844595 (- 52)"

definition float_1_1 :: pyfloat where
  "float_1_1 = Finite 4953959590107546 (- 52)"

section \<open>Integers as text\<close>

text \<open>
  Wherever the source turns an integer into decimal text (an f-string, \<open>json.dumps\<close>,
  \<open>json.dump\<close>) or reads one back (\<open>json.load\<close>), the interpreter raises ValueError
  for an integer of more than 4300 digits. Only whether the conversion raises matters
  here: the text itself goes to the log, which is not part of the model.
\<close>

definition max_str_digits :: nat where
  "max_str_digits = 4300"

text \<open>The least positive integer that cannot be turned into text: \<open>10 ^ 4300\<close>.\<close>

definition str_limit :: int where
  "str_limit = 10 ^ max_str_digits"

definition str_int :: "int \<Rightarrow> error + unit" where
  "str_int n = (if \<bar>n\<bar> < str_limit then Inr () else Inl ValueError)"

text \<open>An f-string whose integer fields are \<open>ns\<close>, evaluated from left to right.\<close>

fun fstring :: "int list \<Rightarrow> error + unit" where
  "fstring [] = Inr ()"
| "fstring (n # ns) = (case str_int n of Inl err \<Rightarrow> Inl err | Inr u \<Rightarrow> fstring ns)"

section \<open>utils.py\<close>

text \<open>
  The JSON file. \<open>data_file\<close> is \<open>None\<close> when the file does not exist or does not hold
  a complete JSON text, and otherwise the dictionary written in it: an association list
  in insertion order, with one entry per key. \<open>saves\<close> counts the calls of \<open>save_data\<close>.
\<close>

type_synonym inventory_data = "(string \<times> Product) list"

record store =
  data_file :: "inventory_data option"
  saves :: nat

text \<open>The integers of a product, in the order of its fields.\<close>

definition product_ints :: "Product \<Rightarrow> int list" where
  "product_ints p = [stock_quantity p, min_threshold p, restock_quantity p]"

text \<open>
  \<open>json_ints d\<close>: the integers \<open>json.dump\<close> writes, and \<open>json.load\<close> reads, for the
  dictionary \<open>d\<close>.
\<close>

definition json_ints :: "inventory_data \<Rightarrow> int list" where
  "json_ints d = concat (map (\<lambda>(pid, p). product_ints p) d)"

text \<open>
  \<open>load_data\<close> returns the empty dictionary when the file does not exist and when
  reading it raises, which \<open>json.load\<close> does on an incomplete text and on an integer of
  more than 4300 digits.
\<close>

definition load_data :: "store \<Rightarrow> inventory_data" where
  "load_data st =
     (case data_file st of
        None \<Rightarrow> []
      | Some d \<Rightarrow> (case fstring (json_ints d) of Inl err \<Rightarrow> [] | Inr u \<Rightarrow> d))"

text \<open>
  \<open>save_data\<close> opens the file for writing, which empties it, and \<open>json.dump\<close> writes
  the text piece by piece. When an integer cannot be written the exception is logged and
  raised again, and what is left in the file is the beginning of a JSON text.
\<close>

definition save_data :: "inventory_data \<Rightarrow> store \<Rightarrow> (error + unit) \<times> store" where
  "save_data d st =
     (case fstring (json_ints d) of
        Inl err \<Rightarrow> (Inl err, st\<lparr>data_file := None, saves := Suc (saves st)\<rparr>)
      | Inr u \<Rightarrow> (Inr (), st\<lparr>data_file := Some d, saves := Suc (saves st)\<rparr>))"

text \<open>
  The argument of \<open>logger.debug\<close> is an f-string: it is evaluated whatever the logging
  level, before the status is returned.
\<close>

definition get_inventory_status :: "Product \<Rightarrow> error + StatusEnum" where
  "get_inventory_status p =
     (let stock = stock_quantity p; threshold = min_threshold p;
          status = (if stock = 0 then out_of_stock
                    else if stock < threshold then below_threshold
                    else ok)
      in case fstring [stock, threshold] of
           Inl err \<Rightarrow> Inl err
         | Inr u \<Rightarrow> Inr status)"

text \<open>
  The flag of the priority tiers, \<open>should_restock_flag\<close> in the source; the comparisons
  with a fraction of the threshold go through a float.
\<close>

definition should_restock_flag :: "Product \<Rightarrow> error + bool" where
  "should_restock_flag p =
     (let stock = stock_quantity p; threshold = min_threshold p
      in case priority p of
           high \<Rightarrow> Inr (stock < threshold)
         | medium \<Rightarrow>
             (case int_mul_float threshold float_0_5 of
                Inl err \<Rightarrow> Inl err
              | Inr x \<Rightarrow> Inr (int_le_float stock x))
         | low \<Rightarrow>
             (case int_mul_float threshold float_0_25 of
                Inl err \<Rightarrow> Inl err
              | Inr x \<Rightarrow> Inr (int_le_float stock x)))"

text \<open>
  The message logged for \<open>stock == 0\<close> holds no integer. The one logged when the flag is
  set holds the stock and the threshold.
\<close>

definition should_restock :: "Product \<Rightarrow> error + bool" where
  "should_restock p =
     (let stock = stock_quantity p; threshold = min_threshold p
      in if stock = 0 then Inr True
         else if stock \<ge> threshold then Inr False
         else (case should_restock_flag p of
                 Inl err \<Rightarrow> Inl err
               | Inr False \<Rightarrow> Inr False
               | Inr True \<Rightarrow>
                   (case fstring [stock, threshold] of
                      Inl err \<Rightarrow> Inl err
                    | Inr u \<Rightarrow> Inr True)))"

text \<open>
  The amount to add, \<open>actual_restock\<close> in the source: the same three-way choice is
  written out in \<open>restock_if_needed\<close> and in \<open>manual_restock\<close>.
\<close>

definition actual_restock :: "Product \<Rightarrow> error + int" where
  "actual_restock p =
     (let restock_qty = restock_quantity p
      in if priority p = high then
           (case int_mul_float restock_qty float_1_2 of
              Inl err \<Rightarrow> Inl err
            | Inr x \<Rightarrow> int_of_float x)
         else if category p = Some high_volume then
           (case int_mul_float restock_qty float_1_1 of
              Inl err \<Rightarrow> Inl err
            | Inr x \<Rightarrow> int_of_float x)
         else Inr restock_qty)"

text \<open>
  \<open>restock_if_needed\<close> mutates the dictionary it is given and returns the flag; here it
  returns the dictionary as well. The message logged after the mutation holds the old
  stock, the new stock and the amount.
\<close>

definition restock_if_needed :: "Product \<Rightarrow> error + (Product \<times> bool)" where
  "restock_if_needed p =
     (case should_restock p of
        Inl err \<Rightarrow> Inl err
      | Inr False \<Rightarrow> Inr (p, False)
      | Inr True \<Rightarrow>
          (let old_stock = stock_quantity p
           in case actual_restock p of
                Inl err \<Rightarrow> Inl err
              | Inr a \<Rightarrow>
                  (let p' = p\<lparr>stock_quantity := stock_quantity p + a\<rparr>
                   in case fstring [old_stock, stock_quantity p', a] of
                        Inl err \<Rightarrow> Inl err
                      | Inr u \<Rightarrow> Inr (p', True))))"

text \<open>
  \<open>log_operation\<close> passes the entry through \<open>json.dumps\<close>; \<open>ns\<close> are the integers of
  \<open>details\<close>, in the order of its keys.
\<close>

definition log_operation :: "int list \<Rightarrow> error + unit" where
  "log_operation ns = fstring ns"

section \<open>main.py\<close>

text \<open>
  Each handler takes the store and returns what it answers (or raises) together with the
  store it leaves. \<open>data[k] = v\<close> on a dictionary is \<open>AList.update k v\<close>: in place for a
  key that is there, at the end for a new one.
\<close>

definition add_product :: "Product \<Rightarrow> store \<Rightarrow> (error + ProductResponse) \<times> store" where
  "add_product product st =
     (let data = load_data st
      in if map_of data (product_id product) \<noteq> None
         then (case log_operation [] of
                 Inl err \<Rightarrow> (Inl err, st)
               | Inr u \<Rightarrow> (Inl (HTTPException 400 Product_already_exists), st))
         else
           (let product1 =
                  (if priority product = high \<and> min_threshold product < 10
                   then product\<lparr>min_threshold := 10\<rparr> else product);
                logged =
                  (if priority product = high \<and> min_threshold product < 10
                   then log_operation [10] else Inr ());
                product2 =
                  product1\<lparr>category :=
                    Some (if restock_quantity product1 > 50 then high_volume else low_volume)\<rparr>;
                data' = AList.update (product_id product2) product2 data
            in case logged of
                 Inl err \<Rightarrow> (Inl err, st)
               | Inr u \<Rightarrow>
                   (case save_data data' st of
                      (Inl err, st') \<Rightarrow> (Inl err, st')
                    | (Inr u, st') \<Rightarrow>
                        (case log_operation [stock_quantity product2] of
                           Inl err \<Rightarrow> (Inl err, st')
                         | Inr u \<Rightarrow>
                             (Inr \<lparr>pr_message = ''Product added successfully'',
                                   pr_product = product2\<rparr>, st')))))"

definition inventory_response :: "Product \<Rightarrow> StatusEnum \<Rightarrow> InventoryResponse" where
  "inventory_response p status =
     \<lparr>ir_product_id = product_id p, ir_stock_quantity = stock_quantity p,
      ir_status = status, ir_priority = priority p\<rparr>"

definition inventory_status :: "string \<Rightarrow> store \<Rightarrow> (error + InventoryResponse) \<times> store" where
  "inventory_status pid st =
     (let data = load_data st
      in case map_of data pid of
           None \<Rightarrow>
             (case log_operation [] of
                Inl err \<Rightarrow> (Inl err, st)
              | Inr u \<Rightarrow> (Inl (HTTPException 404 Product_not_found), st))
         | Some p \<Rightarrow>
             (case get_inventory_status p of
                Inl err \<Rightarrow> (Inl err, st)
              | Inr status \<Rightarrow>
                  (case log_operation [stock_quantity p] of
                     Inl err \<Rightarrow> (Inl err, st)
                   | Inr u \<Rightarrow> (Inr (inventory_response p status), st))))"

text \<open>The loop of \<open>get_all_inventory\<close> over \<open>data.items()\<close>.\<close>

fun inventory_results :: "inventory_data \<Rightarrow> error + InventoryResponse list" where
  "inventory_results [] = Inr []"
| "inventory_results ((pid, p) # rest) =
     (case get_inventory_status p of
        Inl err \<Rightarrow> Inl err
      | Inr status \<Rightarrow>
          (case inventory_results rest of
             Inl err \<Rightarrow> Inl err
           | Inr rs \<Rightarrow> Inr (inventory_response p status # rs)))"

definition get_all_inventory :: "store \<Rightarrow> (error + InventoryResponse list) \<times> store" where
  "get_all_inventory st =
     (let data = load_data st
      in if data = []
         then (case log_operation [0] of
                 Inl err \<Rightarrow> (Inl err, st)
               | Inr u \<Rightarrow> (Inr [], st))
         else (case inventory_results data of
                 Inl err \<Rightarrow> (Inl err, st)
               | Inr results \<Rightarrow>
                   (case log_operation [int (length results)] of
                      Inl err \<Rightarrow> (Inl err, st)
                    | Inr u \<Rightarrow> (Inr results, st))))"

text \<open>
  When the stock is insufficient the failure is logged first, with the requested and the
  available amounts, and the detail of the HTTP 400 is an f-string over the same two.
\<close>

definition purchase_product ::
  "string \<Rightarrow> PurchaseRequest \<Rightarrow> store \<Rightarrow> (error + PurchaseResponse) \<times> store" where
  "purchase_product pid purchase_request st =
     (let data = load_data st
      in case map_of data pid of
           None \<Rightarrow>
             (case log_operation [] of
                Inl err \<Rightarrow> (Inl err, st)
              | Inr u \<Rightarrow> (Inl (HTTPException 404 Product_not_found), st))
         | Some p \<Rightarrow>
             (let q = quantity purchase_request
              in if stock_quantity p < q
                 then (case log_operation [q, stock_quantity p] of
                         Inl err \<Rightarrow> (Inl err, st)
                       | Inr u \<Rightarrow>
                           (case fstring [stock_quantity p, q] of
                              Inl err \<Rightarrow> (Inl err, st)
                            | Inr u \<Rightarrow>
                                (Inl (HTTPException 400
                                        (Insufficient_stock (stock_quantity p) q)), st)))
                 else
                   (let old_stock = stock_quantity p
                    in case restock_if_needed (p\<lparr>stock_quantity := stock_quantity p - q\<rparr>) of
                         Inl err \<Rightarrow> (Inl err, st)
                       | Inr (p', triggered) \<Rightarrow>
                           (case save_data (AList.update pid p' data) st of
                              (Inl err, st') \<Rightarrow> (Inl err, st')
                            | (Inr u, st') \<Rightarrow>
                                (case log_operation [q, old_stock, stock_quantity p'] of
                                   Inl err \<Rightarrow> (Inl err, st')
                                 | Inr u \<Rightarrow>
                                     (Inr \<lparr>pu_message = ''Purchase successful'',
                                           remaining_stock = stock_quantity p',
                                           restock_triggered = triggered\<rparr>, st'))))))"

definition manual_restock :: "string \<Rightarrow> store \<Rightarrow> (error + RestockResponse) \<times> store" where
  "manual_restock pid st =
     (let data = load_data st
      in case map_of data pid of
           None \<Rightarrow>
             (case log_operation [] of
                Inl err \<Rightarrow> (Inl err, st)
              | Inr u \<Rightarrow> (Inl (HTTPException 404 Product_not_found), st))
         | Some p \<Rightarrow>
             (let old_stock = stock_quantity p
              in case actual_restock p of
                   Inl err \<Rightarrow> (Inl err, st)
                 | Inr a \<Rightarrow>
                     (let p' = p\<lparr>stock_quantity := stock_quantity p + a\<rparr>
                      in case save_data (AList.update pid p' data) st of
                           (Inl err, st') \<Rightarrow> (Inl err, st')
                         | (Inr u, st') \<Rightarrow>
                             (case log_operation [old_stock, stock_quantity p', a] of
                                Inl err \<Rightarrow> (Inl err, st')
                              | Inr u \<Rightarrow>
                                  (Inr \<lparr>mr_message = ''Manual restock completed'',
                                        mr_product_id = pid,
                                        stock_before = old_stock,
                                        stock_after = stock_quantity p',
                                        mr_restock_quantity = a\<rparr>, st')))))"

section \<open>Requests\<close>

text \<open>
  The five routes of the application. FastAPI builds the \<open>Product\<close> or the
  \<open>PurchaseRequest\<close> from the body first; when a validator raises, the request is
  answered 422 and the handler does not run. \<open>serve\<close> gives the store a request
  leaves behind.
\<close>

datatype request =
    POST_products Product
  | GET_inventory_id string
  | GET_inventory
  | POST_purchase string PurchaseRequest
  | POST_restock string

fun serve :: "request \<Rightarrow> store \<Rightarrow> store" where
  "serve (POST_products p) st =
     (case validate_Product p of
        Inl err \<Rightarrow> st
      | Inr p' \<Rightarrow> snd (add_product p' st))"
| "serve (GET_inventory_id pid) st = snd (inventory_status pid st)"
| "serve GET_inventory st = snd (get_all_inventory st)"
| "serve (POST_purchase pid r) st =
     (case validate_PurchaseRequest r of
        Inl err \<Rightarrow> st
      | Inr r' \<Rightarrow> snd (purchase_product pid r' st))"
| "serve (POST_restock pid) st = snd (manual_restock pid st)"

text \<open>The store before anything was saved: there is no file.\<close>

definition empty_store :: store where
  "empty_store = \<lparr>data_file = None, saves = 0\<rparr>"

fun serve_all :: "request list \<Rightarrow> store \<Rightarrow> store" where
  "serve_all [] st = st"
| "serve_all (r # rs) st = serve_all rs (serve r st)"

section \<open>The specification's notions\<close>

text \<open>
  \<open>compute_restock_amount\<close> as the specification words it: the real-valued product,
  truncated toward zero.
\<close>

definition trunc_toward_zero :: "rat \<Rightarrow> int" where
  "trunc_toward_zero x = (if 0 \<le> x then \<lfloor>x\<rfloor> else \<lceil>x\<rceil>)"

definition compute_restock_amount :: "int \<Rightarrow> PriorityEnum \<Rightarrow> CategoryEnum option \<Rightarrow> int" where
  "compute_restock_amount rq pr cat =
     (if pr = high then trunc_toward_zero (of_int rq * (12 / 10))
      else if cat = Some high_volume then trunc_toward_zero (of_int rq * (11 / 10))
      else rq)"

text \<open>
  The value of \<open>float(n)\<close> for an integer \<open>n\<close>, when it does not overflow: \<open>n\<close>
  rounded to 53 significant bits, which is again an integer.
\<close>

definition nearest_float :: "int \<Rightarrow> int" where
  "nearest_float n =
     (let s = nat (bitlen \<bar>n\<bar> - 53) in sgn n * (rne_shift \<bar>n\<bar> s * 2 ^ s))"

text \<open>The least integer that \<open>float\<close> refuses: \<open>2 ^ 1024 - 2 ^ 970\<close>.\<close>

definition float_limit :: int where
  "float_limit = 2 ^ 1024 - 2 ^ 970"

text \<open>The invariant of the data model: no quantity of a stored product is negative.\<close>

definition nonneg_quantities :: "Product \<Rightarrow> bool" where
  "nonneg_quantities p \<longleftrightarrow>
     0 \<le> stock_quantity p \<and> 0 \<le> min_threshold p \<and> 0 \<le> restock_quantity p"

definition store_invariant :: "store \<Rightarrow> bool" where
  "store_invariant st \<longleftrightarrow> list_all (\<lambda>(pid, p). nonneg_quantities p) (load_data st)"

section \<open>Example data\<close>

text \<open>The product of the specification's scenario, and a store that holds it.\<close>

definition widget :: Product where
  "widget = \<lparr>product_id = ''w1'', name = ''widget'', stock_quantity = 5, min_threshold = 10,
     restock_quantity = 20, priority = medium, category = Some low_volume\<rparr>"

definition shop :: store where
  "shop = \<lparr>data_file = Some [(''w1'', widget)], saves = 1\<rparr>"

text \<open>A candidate for \<open>add_product\<close>: high priority, a low threshold, no category.\<close>

definition gadget :: Product where
  "gadget = \<lparr>product_id = ''g1'', name = ''gadget'', stock_quantity = 3, min_threshold = 5,
     restock_quantity = 60, priority = high, category = None\<rparr>"

text \<open>A stored low-priority product, and a store that holds it.\<close>

definition trinket :: Product where
  "trinket = \<lparr>product_id = ''k1'', name = ''trinket'', stock_quantity = 3, min_threshold = 5,
     restock_quantity = 40, priority = low, category = Some low_volume\<rparr>"

definition trinket_shop :: store where
  "trinket_shop = \<lparr>data_file = Some [(''k1'', trinket)], saves = 1\<rparr>"

text \<open>Products with a quantity at or beyond what binary64 arithmetic carries exactly.\<close>

definition big_threshold :: Product where
  "big_threshold = \<lparr>product_id = ''t1'', name = ''pallet'', stock_quantity = 1,
     min_threshold = 2 ^ 1024, restock_quantity = 20, priority = medium,
     category = Some low_volume\<rparr>"

definition big_restock :: Product where
  "big_restock = \<lparr>product_id = ''b1'', name = ''bulk'', stock_quantity = 1,
     min_threshold = 10, restock_quantity = 2 ^ 1024, priority = high,
     category = Some high_volume\<rparr>"

definition big_shop :: store where
  "big_shop = \<lparr>data_file = Some [(''b1'', big_restock)], saves = 1\<rparr>"

text \<open>Products with a quantity at or next to the limit of the conversion to text.\<close>

definition long_threshold :: Product where
  "long_threshold = \<lparr>product_id = ''l1'', name = ''ledger'', stock_quantity = 1,
     min_threshold = str_limit, restock_quantity = 20, priority = high,
     category = Some low_volume\<rparr>"

definition full_stock :: Product where
  "full_stock = \<lparr>product_id = ''f1'', name = ''filler'', stock_quantity = str_limit - 1,
     min_threshold = 10, restock_quantity = 20, priority = medium,
     category = Some low_volume\<rparr>"

definition full_shop :: store where
  "full_shop = \<lparr>data_file = Some [(''f1'', full_stock)], saves = 1\<rparr>"

definition edge_restock :: Product where
  "edge_restock = \<lparr>product_id = ''e1'', name = ''edge'', stock_quantity = 1,
     min_threshold = 10, restock_quantity = 3752999689475414, priority = high,
     category = Some high_volume\<rparr>"

section \<open>Rounding to binary64\<close>

text \<open>
  Facts about \<open>rne_shift\<close> and \<open>round_binary64\<close>: the rounded value is within half a
  unit in the last place, rounding is monotone, the conversion of an integer overflows
  exactly from \<open>2 ^ 1024 - 2 ^ 970\<close> on, and the products with \<open>1.2\<close> and \<open>1.1\<close>
  truncate to the exact quotients below the first integer where the rounding shows.
\<close>

subsection \<open>Rounding a non-negative integer\<close>

lemma rne_shift_0: "rne_shift a 0 = a"
  by (simp add: rne_shift_def)

lemma rne_shift_cases:
  "rne_shift a s = a div 2 ^ s \<or> rne_shift a s = a div 2 ^ s + 1"
  by (simp add: rne_shift_def Let_def)

lemma rne_shift_nonneg: "0 \<le> a \<Longrightarrow> 0 \<le> rne_shift a s"
  using rne_shift_cases [of a s] pos_imp_zdiv_nonneg_iff [of "2 ^ s" a] by auto

lemma rne_shift_error:
  "2 * (2 ^ s * rne_shift a s - a) \<le> 2 ^ s \<and> 2 * (a - 2 ^ s * rne_shift a s) \<le> 2 ^ s"
proof -
  define P :: int where "P = 2 ^ s"
  define q where "q = a div P"
  define r where "r = a mod P"
  define m where "m = rne_shift a s"
  have P: "0 < P" by (simp add: P_def)
  have a: "a = P * q + r" by (simp add: q_def r_def)
  have r: "0 \<le> r" "r < P" using P by (simp_all add: r_def)
  have m: "m = (if P < 2 * r \<or> (2 * r = P \<and> odd q) then q + 1 else q)"
    by (simp add: m_def rne_shift_def Let_def P_def q_def r_def)
  have "2 * (P * m - a) \<le> P \<and> 2 * (a - P * m) \<le> P"
    unfolding m a using r by (auto simp: algebra_simps)
  then show ?thesis by (simp add: P_def m_def)
qed

lemma rne_shift_ge: "g * 2 ^ s \<le> a \<Longrightarrow> g \<le> rne_shift a s"
proof -
  assume "g * 2 ^ s \<le> a"
  then have "g \<le> a div 2 ^ s"
    by (simp add: zdiv_mono1 [of "g * 2 ^ s" a "2 ^ s", simplified])
  then show ?thesis using rne_shift_cases [of a s] by auto
qed

lemma rne_shift_le: "a \<le> g * 2 ^ s \<Longrightarrow> rne_shift a s \<le> g"
proof -
  define P :: int where "P = 2 ^ s"
  define q where "q = a div P"
  define r where "r = a mod P"
  assume h: "a \<le> g * 2 ^ s"
  have P: "0 < P" by (simp add: P_def)
  have a: "a = P * q + r" by (simp add: q_def r_def)
  have r: "0 \<le> r" "r < P" using P by (simp_all add: r_def)
  have m: "rne_shift a s = (if P < 2 * r \<or> (2 * r = P \<and> odd q) then q + 1 else q)"
    by (simp add: rne_shift_def Let_def P_def q_def r_def)
  have "q \<le> g"
  proof (rule ccontr)
    assume "\<not> q \<le> g"
    then have "g + 1 \<le> q" by simp
    then have "P * (g + 1) \<le> P * q" using P by (simp add: mult_left_mono)
    then show False using h a r by (simp add: P_def [symmetric] algebra_simps)
  qed
  moreover have "q = g \<Longrightarrow> r = 0"
    using h a r by (simp add: P_def [symmetric] algebra_simps)
  ultimately show ?thesis unfolding m using r by (cases "q = g") auto
qed

lemma rne_shift_zero_arg: "rne_shift 0 s = 0"
  by (simp add: rne_shift_def)

subsection \<open>Conversion of an integer, and where it overflows\<close>

text \<open>Up to \<open>2 ^ 53\<close> every integer is a float; the conversion changes nothing.\<close>

lemma float_of_int_exact:
  assumes "0 \<le> n" and "n < 2 ^ 53"
  shows "float_of_int n = Inr (Finite n 0)"
proof -
  have b: "bitlen n \<le> 53"
    using assms by (simp add: bitlen_le_iff_power)
  then have s: "nat (max (bitlen n - 53) (- 1074 - 0)) = 0" by simp
  have "round_binary64 n 0 = Finite n 0"
  proof (cases "n = 0")
    case True
    then show ?thesis by (simp add: round_binary64_def Let_def rne_shift_zero_arg)
  next
    case False
    with assms have "0 < n" by simp
    then show ?thesis using b s by (simp add: round_binary64_def Let_def rne_shift_0)
  qed
  then show ?thesis by (simp add: float_of_int_def)
qed

lemma no_overflow_if_small:
  assumes "m * 2 ^ s < (2::int) ^ 1024"
  shows "\<not> (0 < m \<and> 1024 < bitlen m + int s)"
proof
  assume h: "0 < m \<and> 1024 < bitlen m + int s"
  have "(2::int) ^ 1024 \<le> 2 ^ (nat (bitlen m - 1) + s)"
    using h by (intro power_increasing) auto
  also have "\<dots> = 2 ^ nat (bitlen m - 1) * 2 ^ s" by (rule power_add)
  also have "\<dots> \<le> m * 2 ^ s"
    using h bitlen_bounds [of m] by (intro mult_right_mono) auto
  finally show False using assms leD by blast
qed

lemma overflow_if_large:
  assumes "(2::int) ^ 1024 \<le> m * 2 ^ s"
  shows "0 < m \<and> 1024 < bitlen m + int s"
proof -
  have pos: "0 < m"
  proof (rule ccontr)
    assume "\<not> 0 < m"
    then have "m * 2 ^ s \<le> 0" by (simp add: mult_nonpos_nonneg)
    with assms have "(2::int) ^ 1024 \<le> 0" by (rule order_trans)
    then show False by simp
  qed
  have "\<not> bitlen m + int s \<le> 1024"
  proof
    assume le: "bitlen m + int s \<le> 1024"
    have "m < 2 ^ nat (bitlen m)" using bitlen_bounds [OF pos] by simp
    then have "m * 2 ^ s < 2 ^ nat (bitlen m) * (2::int) ^ s" by simp
    also have "\<dots> = 2 ^ (nat (bitlen m) + s)" by (simp add: power_add)
    also have "\<dots> \<le> 2 ^ 1024" using le bitlen_nonneg [of m] by (intro power_increasing) auto
    finally show False using assms leD by blast
  qed
  with pos show ?thesis by simp
qed

lemma float_of_int_in_range:
  assumes "0 \<le> n" and "n < 2 ^ 1024 - 2 ^ 970"
  shows "float_of_int n =
           Inr (Finite (rne_shift n (nat (bitlen n - 53))) (int (nat (bitlen n - 53))))"
proof -
  define s where "s = nat (bitlen n - 53)"
  define m where "m = rne_shift n s"
  define B :: int where "B = 2 ^ 970"
  have B: "(2::int) ^ 971 = 2 * B" "(2::int) ^ 1024 = 2 ^ 54 * B"
    by (simp_all add: B_def power_add [symmetric])
  have eq: "(2::int) ^ 1024 - 2 ^ 970 = 2 ^ 54 * B - B" by (simp only: B(2) B_def)
  have Bpos: "0 < B" by (simp add: B_def)
  have a2: "n < 2 ^ 54 * B - B" using assms(2) by (simp only: eq)
  then have "n < 2 ^ 54 * B" using Bpos by simp
  then have "n < 2 ^ 1024" by (simp only: B(2))
  then have "bitlen n \<le> 1024" by (simp add: bitlen_le_iff_power)
  then have "s \<le> 971" by (simp add: s_def)
  then have P: "(2::int) ^ s \<le> 2 * B"
    unfolding B(1) [symmetric] by (intro power_increasing) auto
  define X where "X = m * 2 ^ s"
  have "2 * (2 ^ s * m - n) \<le> 2 ^ s"
    using rne_shift_error [of s n] by (simp add: m_def)
  then have "2 * (X - n) \<le> 2 ^ s" by (simp add: X_def mult.commute)
  with P a2 have "X < 2 ^ 54 * B" by simp
  then have "m * 2 ^ s < 2 ^ 54 * B" by (simp only: X_def)
  then have no: "\<not> (0 < m \<and> 1024 < bitlen m + int s)"
    unfolding B(2) [symmetric] by (rule no_overflow_if_small)
  have sg: "sgn n * m = m"
    using assms(1) by (cases "n = 0") (auto simp: m_def rne_shift_zero_arg sgn_if)
  have "nat (max (bitlen n - 53) (- 1074 - 0)) = s" by (simp add: s_def)
  then have "round_binary64 n 0 = Finite m (int s)"
    using no sg assms(1) by (simp add: round_binary64_def Let_def m_def [symmetric])
  then show ?thesis by (simp add: float_of_int_def m_def s_def)
qed

lemma rne_shift_round_up:
  assumes "a = q * 2 ^ s + r" and "odd q" and "2 ^ s \<le> 2 * r" and "r < 2 ^ s"
  shows "rne_shift a s = q + 1"
proof -
  have "(0::int) < 2 ^ s" by simp
  then have "0 < 2 * r" using assms(3) by (rule less_le_trans)
  then have "0 \<le> r" by simp
  then have "a div 2 ^ s = q" "a mod 2 ^ s = r"
    using assms(1,4) by (simp_all add: div_pos_pos_trivial)
  then show ?thesis using assms(2,3) by (auto simp: rne_shift_def Let_def)
qed

lemma float_of_int_overflow:
  assumes "2 ^ 1024 - 2 ^ 970 \<le> n"
  shows "float_of_int n = Inl OverflowError"
proof -
  define s where "s = nat (bitlen n - 53)"
  define m where "m = rne_shift n s"
  define B :: int where "B = 2 ^ 970"
  have B: "(2::int) ^ 971 = 2 * B" "(2::int) ^ 1024 = 2 ^ 54 * B"
    by (simp_all add: B_def power_add [symmetric])
  have Bpos: "0 < B" by (simp add: B_def)
  have eq: "(2::int) ^ 1024 - 2 ^ 970 = 2 ^ 54 * B - B" by (simp only: B(2) B_def)
  have n: "2 ^ 54 * B - B \<le> n" using assms by (simp only: eq)
  then have npos: "0 < n" using Bpos by simp
  have "(2::int) ^ 1023 \<le> n"
  proof -
    have "(2::int) ^ 1023 = 2 ^ 53 * B" unfolding B_def power_add [symmetric] by simp
    then show ?thesis using n Bpos by simp
  qed
  then have "1024 \<le> bitlen n" by (simp add: bitlen_ge_iff_power)
  then have s: "971 \<le> s" "int s = bitlen n - 53" by (simp_all add: s_def)
  have big: "(2::int) ^ 1024 \<le> m * 2 ^ s"
  proof (cases "s = 971")
    case True
    show ?thesis
    proof (cases "n < 2 ^ 1024")
      case True
      define r where "r = n - (2 ^ 53 - 1) * (2 * B)"
      have nlt: "n < 2 ^ 54 * B" using True by (simp only: B(2))
      have "n = (2 ^ 53 - 1) * (2 * B) + r" by (simp add: r_def)
      then have "n = (2 ^ 53 - 1) * 2 ^ 971 + r" by (simp only: B(1))
      moreover have "odd ((2::int) ^ 53 - 1)" by simp
      moreover have "2 * B \<le> 2 * r" using n by (simp add: r_def)
      then have "2 ^ 971 \<le> 2 * r" by (simp only: B(1))
      moreover have "r < 2 * B" using nlt by (simp add: r_def)
      then have "r < 2 ^ 971" by (simp only: B(1))
      ultimately have "rne_shift n 971 = 2 ^ 53 - 1 + 1" by (rule rne_shift_round_up)
      then have "m = 2 ^ 53" using \<open>s = 971\<close> by (simp add: m_def)
      then show ?thesis using \<open>s = 971\<close> by (simp add: power_add [symmetric])
    next
      case False
      then have "2 ^ 53 * 2 ^ 971 \<le> n" by (simp add: power_add [symmetric])
      then have "2 ^ 53 \<le> rne_shift n 971" by (rule rne_shift_ge)
      then have "2 ^ 53 * 2 ^ 971 \<le> m * (2::int) ^ 971"
        using \<open>s = 971\<close> by (simp add: m_def)
      then show ?thesis using \<open>s = 971\<close> by (simp add: power_add [symmetric])
    qed
  next
    case False
    with s have s2: "972 \<le> s" by simp
    have "2 ^ nat (bitlen n - 1) \<le> n" using bitlen_bounds [OF npos] by simp
    moreover have "nat (bitlen n - 1) = 52 + s" using s by simp
    ultimately have "2 ^ 52 * 2 ^ s \<le> n" by (simp add: power_add)
    then have "2 ^ 52 \<le> m" unfolding m_def by (rule rne_shift_ge)
    then have m52: "2 ^ 52 * 2 ^ s \<le> m * (2::int) ^ s" by (simp add: mult_right_mono)
    have "(2::int) ^ 1024 \<le> 2 ^ (52 + s)"
      using s2 by (intro power_increasing) auto
    also have "\<dots> = 2 ^ 52 * 2 ^ s" by (rule power_add)
    also note m52
    finally show ?thesis .
  qed
  have ov: "0 < m \<and> 1024 < bitlen m + int s"
    using big by (rule overflow_if_large)
  have "nat (max (bitlen n - 53) (- 1074 - 0)) = s" by (simp add: s_def)
  then have "round_binary64 n 0 = PInf"
    using ov npos by (simp add: round_binary64_def Let_def m_def [symmetric])
  then show ?thesis by (simp add: float_of_int_def)
qed

subsection \<open>Products with the literals 1.2 and 1.1\<close>

text \<open>
  The significands of the two literals: \<open>1.2\<close> lies \<open>1 / (5 * 2 ^ 52)\<close> below
  \<open>6 / 5\<close>, and \<open>1.1\<close> lies \<open>4 / (10 * 2 ^ 52)\<close> above \<open>11 / 10\<close>; both are within half
  a unit in the last place.
\<close>

lemma float_literals:
  "5 * 5404319552844595 = 6 * (2::int) ^ 52 - 1
   \<and> 10 * 4953959590107546 = 11 * (2::int) ^ 52 + 4"
  by simp

lemma round_binary64_product:
  assumes "0 \<le> N" and "N < 2 ^ 105"
  shows "round_binary64 N (- 52) =
           Finite (rne_shift N (nat (bitlen N - 53))) (int (nat (bitlen N - 53)) - 52)"
proof -
  define s where "s = nat (bitlen N - 53)"
  define m where "m = rne_shift N s"
  define X where "X = m * 2 ^ s"
  have "bitlen N \<le> 105" using assms(2) by (simp add: bitlen_le_iff_power)
  then have "s \<le> 52" by (simp add: s_def)
  then have P: "(2::int) ^ s \<le> 2 ^ 52" by (intro power_increasing) auto
  have "2 * (2 ^ s * m - N) \<le> 2 ^ s"
    using rne_shift_error [of s N] by (simp add: m_def)
  then have "2 * (X - N) \<le> 2 ^ s" by (simp add: X_def mult.commute)
  with P assms(2) have "X < 2 ^ 1024" by simp
  then have "\<not> (0 < m \<and> 1024 < bitlen m + int s)"
    unfolding X_def by (rule no_overflow_if_small)
  then have no: "\<not> (0 < m \<and> 1024 < bitlen m + (- 52 + int s))" by auto
  have sg: "sgn N * m = m"
    using assms(1) by (cases "N = 0") (auto simp: m_def rne_shift_zero_arg sgn_if)
  have "nat (max (bitlen N - 53) (- 1074 - (- 52))) = s" by (simp add: s_def)
  then have "round_binary64 N (- 52) = Finite m (- 52 + int s)"
    using no sg assms(1) by (simp add: round_binary64_def Let_def m_def [symmetric])
  then show ?thesis by (simp add: m_def s_def)
qed

lemma int_of_float_scaled:
  assumes "s \<le> 52" and "0 \<le> m"
  shows "int_of_float (Finite m (int s - 52)) = Inr (m * 2 ^ s div 2 ^ 52)"
proof (cases "s = 52")
  case True
  then show ?thesis by simp
next
  case False
  with assms have lt: "s < 52" by simp
  have "(2::int) ^ 52 = 2 ^ (52 - s) * 2 ^ s"
    using lt by (simp add: power_add [symmetric])
  then have "m * 2 ^ s div 2 ^ 52 = m * 2 ^ s div (2 ^ (52 - s) * 2 ^ s)" by simp
  also have "\<dots> = m div 2 ^ (52 - s)" by (rule div_mult_mult2) simp
  finally have e: "m * 2 ^ s div 2 ^ 52 = m div 2 ^ (52 - s)" .
  have n: "nat (52 - int s) = 52 - s" using lt by simp
  have "int_of_float (Finite m (int s - 52)) = Inr (m div 2 ^ (52 - s))"
    using lt assms(2) by (cases "m = 0") (simp_all add: n sgn_if)
  then show ?thesis by (simp only: e)
qed

lemma rounded_div:
  assumes "s \<le> 52" and "q * 2 ^ 52 - 2 ^ s < m * 2 ^ s" and "m * 2 ^ s < (q + 1) * 2 ^ 52"
  shows "m * 2 ^ s div 2 ^ 52 = (q::int)"
proof -
  define P :: int where "P = 2 ^ s"
  define D :: int where "D = 2 ^ (52 - s)"
  define K :: int where "K = 2 ^ 52"
  have P: "0 < P" by (simp add: P_def)
  have K: "K = D * P" "0 < K"
    using assms(1) by (simp_all add: K_def D_def P_def power_add [symmetric])
  have "(q * D - 1) * P < m * P"
    using assms(2) unfolding K_def [symmetric] P_def [symmetric] K(1)
    by (simp add: algebra_simps)
  then have "q * D - 1 < m" using P by (simp only: mult_less_cancel_right_pos)
  then have "q * D \<le> m" by simp
  then have "q * D * P \<le> m * P" using P by (simp only: mult_le_cancel_right_pos)
  then have lo: "K * q \<le> m * P" by (simp add: K(1) algebra_simps)
  have hi: "m * P < K * q + K"
    using assms(3) unfolding K_def [symmetric] P_def [symmetric] by (simp add: algebra_simps)
  have "m * P div K = q"
  proof (rule int_div_pos_eq)
    show "m * P = K * q + (m * P - K * q)" by simp
    show "0 \<le> m * P - K * q" using lo by simp
    show "m * P - K * q < K" using hi by simp
  qed
  then show ?thesis by (simp only: P_def K_def)
qed

lemma bitlen_shift_bounds:
  assumes "nat (bitlen N - 53) \<noteq> 0"
  shows "2 ^ nat (bitlen N - 53) * 2 ^ 52 \<le> N \<and> N < 2 * 2 ^ nat (bitlen N - 53) * 2 ^ 52"
proof -
  define s where "s = nat (bitlen N - 53)"
  have b: "bitlen N = int s + 53" using assms by (simp add: s_def)
  then have "0 < N" using bitlen_eq_zero_iff [of N] by (cases "0 < N") auto
  then have "2 ^ nat (bitlen N - 1) \<le> N" "N < 2 ^ nat (bitlen N)"
    using bitlen_bounds [of N] by simp_all
  moreover have "nat (bitlen N - 1) = s + 52" "nat (bitlen N) = Suc (s + 52)"
    using b by simp_all
  ultimately have "2 ^ (s + 52) \<le> N" "N < 2 ^ Suc (s + 52)" by simp_all
  then show ?thesis unfolding s_def [symmetric] by (simp_all only: power_add power_Suc mult.assoc)
qed

lemma mul_1_2_trunc:
  assumes "0 \<le> n" and "n * 5404319552844595 < 2 ^ 104"
  shows "rne_shift (n * 5404319552844595) (nat (bitlen (n * 5404319552844595) - 53))
           * 2 ^ nat (bitlen (n * 5404319552844595) - 53) div 2 ^ 52 = n * 6 div 5"
proof -
  define N where "N = n * 5404319552844595"
  define s where "s = nat (bitlen N - 53)"
  define P :: int where "P = 2 ^ s"
  define m where "m = rne_shift N s"
  define X where "X = m * P"
  define q where "q = n * 6 div 5"
  define K :: int where "K = 4503599627370496"
  have K: "(2::int) ^ 52 = K" by (simp add: K_def)
  have N5: "5 * N = 6 * n * K - n" by (simp add: N_def K_def)
  have q: "5 * q \<le> n * 6" "n * 6 \<le> 5 * q + 4" by (simp_all add: q_def)
  have "bitlen N \<le> 104" using assms(2) by (simp add: bitlen_le_iff_power N_def)
  then have s51: "s \<le> 51" by (simp add: s_def)
  have err: "2 * (X - N) \<le> P" "2 * (N - X) \<le> P"
    using rne_shift_error [of s N] by (simp_all add: X_def m_def P_def mult.commute)
  have "X div 2 ^ 52 = q"
  proof (cases "s = 0")
    case True
    then have "bitlen N \<le> 53" by (simp add: s_def)
    then have "N < 2 ^ 53" by (simp add: bitlen_le_iff_power)
    then have "n < 2" by (simp add: N_def)
    then have "n = 0 \<or> n = 1" using assms(1) by auto
    moreover have "X = N" using True by (simp add: X_def m_def P_def rne_shift_0)
    ultimately show ?thesis by (auto simp: N_def q_def)
  next
    case False
    then have "P * 2 ^ 52 \<le> N \<and> N < 2 * P * 2 ^ 52"
      using bitlen_shift_bounds [of N] by (simp add: s_def P_def)
    then have N: "P * K \<le> N" "N < 2 * P * K" by (simp_all only: K)
    have Pc: "P \<le> 2 ^ 50 \<or> P = 2 ^ 51"
    proof (cases "s = 51")
      case True
      then show ?thesis by (simp add: P_def)
    next
      case False
      with s51 have "s \<le> 50" by simp
      then have "(2::int) ^ s \<le> 2 ^ 50" by (intro power_increasing) auto
      then show ?thesis by (simp add: P_def)
    qed
    have nP: "n < 2 * P"
    proof (rule ccontr)
      assume "\<not> n < 2 * P"
      then have "2 * P * K \<le> n * K" by (simp add: K_def)
      also have "\<dots> \<le> N" using assms(1) by (simp add: N_def K_def)
      finally show False using N(2) by simp
    qed
    have Ppos: "0 < P" by (simp add: P_def)
    have e1: "2 * X - 10808639105689190 * n \<le> P" using err(1) by (simp add: N_def)
    have e2: "10808639105689190 * n - 2 * X \<le> P" using err(2) by (simp add: N_def)
    have lo: "q * K - P < X" using e2 q(1) nP Ppos unfolding K_def by linarith
    have "5 * P < 2 * K + 2 * n"
      using Pc
    proof
      assume "P \<le> 2 ^ 50"
      then show ?thesis using assms(1) by (simp add: K_def)
    next
      assume p: "P = 2 ^ 51"
      with N(1) show ?thesis by (simp add: K_def N_def)
    qed
    with e1 q(2) have "X < q * K + K" unfolding K_def by linarith
    then have hi: "X < (q + 1) * K" by (simp add: algebra_simps)
    have "m * 2 ^ s div 2 ^ 52 = q"
      using s51 lo hi unfolding X_def P_def K [symmetric]
      by (intro rounded_div) simp_all
    then show ?thesis by (simp add: X_def P_def)
  qed
  then show ?thesis by (simp only: X_def m_def P_def s_def N_def q_def)
qed

lemma mul_1_1_trunc:
  assumes "0 \<le> n" and "n * 4953959590107546 < 2 ^ 101"
  shows "rne_shift (n * 4953959590107546) (nat (bitlen (n * 4953959590107546) - 53))
           * 2 ^ nat (bitlen (n * 4953959590107546) - 53) div 2 ^ 52 = n * 11 div 10"
proof -
  define N where "N = n * 4953959590107546"
  define s where "s = nat (bitlen N - 53)"
  define P :: int where "P = 2 ^ s"
  define m where "m = rne_shift N s"
  define X where "X = m * P"
  define q where "q = n * 11 div 10"
  define K :: int where "K = 4503599627370496"
  have K: "(2::int) ^ 52 = K" by (simp add: K_def)
  have q: "10 * q \<le> n * 11" "n * 11 \<le> 10 * q + 9" by (simp_all add: q_def)
  have "bitlen N \<le> 101" using assms(2) by (simp add: bitlen_le_iff_power N_def)
  then have s48: "s \<le> 48" by (simp add: s_def)
  then have "(2::int) ^ s \<le> 2 ^ 48" by (intro power_increasing) auto
  then have P48: "P \<le> 281474976710656" by (simp add: P_def)
  have Ppos: "0 < P" by (simp add: P_def)
  have err: "2 * (X - N) \<le> P" "2 * (N - X) \<le> P"
    using rne_shift_error [of s N] by (simp_all add: X_def m_def P_def mult.commute)
  have e1: "2 * X - 9907919180215092 * n \<le> P" using err(1) by (simp add: N_def)
  have e2: "9907919180215092 * n - 2 * X \<le> P" using err(2) by (simp add: N_def)
  have n49: "n * 4953959590107546 < 2535301200456458802993406410752"
    using assms(2) by simp
  have "X div 2 ^ 52 = q"
  proof (cases "s = 0")
    case True
    then have "bitlen N \<le> 53" by (simp add: s_def)
    then have "N < 2 ^ 53" by (simp add: bitlen_le_iff_power)
    then have "n < 2" by (simp add: N_def)
    then have "n = 0 \<or> n = 1" using assms(1) by auto
    moreover have "X = N" using True by (simp add: X_def m_def P_def rne_shift_0)
    ultimately show ?thesis by (auto simp: N_def q_def)
  next
    case False
    have lo: "q * K - P < X" using e2 q(1) Ppos assms(1) unfolding K_def by linarith
    have "X < q * K + K" using e1 q(2) P48 n49 unfolding K_def by linarith
    then have hi: "X < (q + 1) * K" by (simp add: algebra_simps)
    have "m * 2 ^ s div 2 ^ 52 = q"
      using s48 lo hi unfolding X_def P_def K [symmetric]
      by (intro rounded_div) simp_all
    then show ?thesis by (simp add: X_def P_def)
  qed
  then show ?thesis by (simp only: X_def m_def P_def s_def N_def q_def)
qed

lemma int_mul_float_1_2:
  assumes "0 \<le> n" and "n < 3752999689475414"
  shows "\<exists>x. int_mul_float n float_1_2 = Inr x \<and> int_of_float x = Inr (n * 6 div 5)"
proof -
  define N where "N = n * 5404319552844595"
  define s where "s = nat (bitlen N - 53)"
  have N104: "N < 2 ^ 104" using assms(2) by (simp add: N_def)
  then have N105: "N < 2 ^ 105" by simp
  have N0: "0 \<le> N" using assms(1) by (simp add: N_def)
  have "bitlen N \<le> 104" using N104 by (simp add: bitlen_le_iff_power)
  then have s: "s \<le> 52" by (simp add: s_def)
  have "n < 2 ^ 53" using assms(2) by simp
  then have f: "float_of_int n = Inr (Finite n 0)"
    using assms(1) by (intro float_of_int_exact)
  have r: "round_binary64 N (- 52) = Finite (rne_shift N s) (int s - 52)"
    unfolding s_def using N0 N105 by (rule round_binary64_product)
  have "int_of_float (Finite (rne_shift N s) (int s - 52))
          = Inr (rne_shift N s * 2 ^ s div 2 ^ 52)"
    using s N0 by (intro int_of_float_scaled rne_shift_nonneg)
  also have "rne_shift N s * 2 ^ s div 2 ^ 52 = n * 6 div 5"
    unfolding s_def N_def using assms(1) N104 [unfolded N_def] by (rule mul_1_2_trunc)
  finally have "int_of_float (round_binary64 N (- 52)) = Inr (n * 6 div 5)"
    by (simp only: r)
  then show ?thesis
    by (simp add: int_mul_float_def f float_1_2_def N_def)
qed

subsection \<open>Products that do not overflow, comparisons with a fraction of an integer\<close>

lemma limit_gt: "(2::int) ^ 1021 < 2 ^ 1024 - 2 ^ 970"
  by simp

lemma bitlen_times_pow2_le:
  assumes "0 < m" and "m * 2 ^ s < (2::int) ^ k"
  shows "bitlen m + int s \<le> int k"
proof -
  have "bitlen (m * 2 ^ s) \<le> int k"
    using assms(2) by (simp add: bitlen_le_iff_power)
  then show ?thesis using assms(1) by simp
qed

lemma rne_shift_le_double:
  assumes "0 \<le> a"
  shows "rne_shift a (nat (bitlen a - 53)) * 2 ^ nat (bitlen a - 53) \<le> 2 * a"
proof (cases "nat (bitlen a - 53) = 0")
  case True
  then show ?thesis using assms by (simp add: rne_shift_0)
next
  case False
  define s where "s = nat (bitlen a - 53)"
  define X where "X = rne_shift a s * 2 ^ s"
  define P :: int where "P = 2 ^ s"
  have P: "0 < P" by (simp add: P_def)
  have "P * 2 ^ 52 \<le> a"
    using bitlen_shift_bounds [OF False] by (simp add: s_def P_def)
  then have "P * 4503599627370496 \<le> a" by simp
  with P have "P \<le> a" by linarith
  moreover have "2 * (X - a) \<le> P"
    using rne_shift_error [of s a] by (simp add: X_def P_def mult.commute)
  ultimately have "X \<le> 2 * a" using assms by simp
  then show ?thesis by (simp only: X_def s_def)
qed

lemma rne_shift_le_pow53:
  assumes "0 \<le> a"
  shows "rne_shift a (nat (bitlen a - 53)) \<le> 2 ^ 53"
proof (cases "nat (bitlen a - 53) = 0")
  case True
  then have "bitlen a \<le> 53" by simp
  then have "a < 2 ^ 53" by (simp add: bitlen_le_iff_power)
  then show ?thesis using True by (simp add: rne_shift_0)
next
  case False
  have "a < 2 * 2 ^ nat (bitlen a - 53) * 2 ^ 52"
    using bitlen_shift_bounds [OF False] by simp
  then have "a \<le> 2 ^ 53 * 2 ^ nat (bitlen a - 53)" by simp
  then show ?thesis by (rule rne_shift_le)
qed

lemma nearest_float_nonneg_eq:
  assumes "0 \<le> n"
  shows "nearest_float n = rne_shift n (nat (bitlen n - 53)) * 2 ^ nat (bitlen n - 53)"
  using assms by (cases "n = 0") (simp_all add: nearest_float_def Let_def rne_shift_zero_arg)

lemma round_binary64_int:
  assumes "0 \<le> n"
  shows "round_binary64 n 0 =
           (if 0 < rne_shift n (nat (bitlen n - 53))
               \<and> 1024 < bitlen (rne_shift n (nat (bitlen n - 53))) + int (nat (bitlen n - 53))
            then PInf
            else Finite (rne_shift n (nat (bitlen n - 53))) (int (nat (bitlen n - 53))))"
proof -
  define s where "s = nat (bitlen n - 53)"
  have s: "nat (max (bitlen n - 53) (- 1074 - 0)) = s" by (simp add: s_def)
  have sg: "sgn n * rne_shift n s = rne_shift n s"
    using assms(1) by (cases "n = 0") (auto simp: rne_shift_zero_arg sgn_if)
  have a: "\<bar>n\<bar> = n" "\<not> n < 0" using assms by simp_all
  show ?thesis
    unfolding round_binary64_def Let_def s a s_def [symmetric] sg using assms by simp
qed

lemma float_of_int_finite_bound:
  assumes "0 \<le> n" and "float_of_int n = Inr (Finite m e)"
  shows "m = rne_shift n (nat (bitlen n - 53)) \<and> e = int (nat (bitlen n - 53))
         \<and> (0 < m \<longrightarrow> bitlen m + e \<le> 1024)"
  using assms(2) unfolding float_of_int_def round_binary64_int [OF assms(1)]
  by (auto split: if_splits)

lemma int_le_float_scale:
  assumes "0 \<le> e + int j"
  shows "int_le_float a (Finite m e) \<longleftrightarrow> a * 2 ^ j \<le> m * 2 ^ nat (e + int j)"
proof (cases "0 \<le> e")
  case True
  have L: "int_le_float a (Finite m e) \<longleftrightarrow> a \<le> m * 2 ^ nat e" using True by simp
  have "nat (e + int j) = nat e + j" using True by simp
  then have R: "m * 2 ^ nat (e + int j) = (m * 2 ^ nat e) * 2 ^ j"
    by (simp only: power_add mult.assoc)
  have C: "a * 2 ^ j \<le> (m * 2 ^ nat e) * 2 ^ j \<longleftrightarrow> a \<le> m * 2 ^ nat e"
    by (rule mult_le_cancel_right_pos) simp
  show ?thesis by (simp only: L R C)
next
  case False
  have L: "int_le_float a (Finite m e) \<longleftrightarrow> a * 2 ^ nat (- e) \<le> m" using False by simp
  have "j = nat (- e) + nat (e + int j)" using False assms by simp
  then have "(2::int) ^ j = 2 ^ nat (- e) * 2 ^ nat (e + int j)"
    by (metis power_add)
  then have R: "a * 2 ^ j = (a * 2 ^ nat (- e)) * 2 ^ nat (e + int j)"
    by (simp only: mult.assoc)
  have C: "(a * 2 ^ nat (- e)) * 2 ^ nat (e + int j) \<le> m * 2 ^ nat (e + int j)
                   \<longleftrightarrow> a * 2 ^ nat (- e) \<le> m"
    by (rule mult_le_cancel_right_pos) simp
  show ?thesis by (simp only: L R C)
qed

lemma round_binary64_nonneg_eq:
  assumes "0 \<le> N"
  shows "round_binary64 N e =
           (if 0 < rne_shift N (nat (max (bitlen N - 53) (- 1074 - e)))
               \<and> 1024 < bitlen (rne_shift N (nat (max (bitlen N - 53) (- 1074 - e))))
                          + (e + int (nat (max (bitlen N - 53) (- 1074 - e))))
            then PInf
            else Finite (rne_shift N (nat (max (bitlen N - 53) (- 1074 - e))))
                        (e + int (nat (max (bitlen N - 53) (- 1074 - e)))))"
proof -
  define s where "s = nat (max (bitlen N - 53) (- 1074 - e))"
  have sg: "sgn N * rne_shift N s = rne_shift N s"
    using assms(1) by (cases "N = 0") (auto simp: rne_shift_zero_arg sgn_if)
  have a: "\<bar>N\<bar> = N" using assms by simp
  show ?thesis
    unfolding round_binary64_def Let_def a s_def [symmetric] sg using assms by simp
qed

lemma int_of_float_nonneg:
  assumes "0 \<le> m" and "int_of_float (Finite m e) = Inr a"
  shows "0 \<le> a"
proof -
  have "0 \<le> m * 2 ^ nat e" using assms(1) by simp
  moreover have "0 \<le> sgn m * (\<bar>m\<bar> div 2 ^ nat (- e))"
    using assms(1) by (cases "m = 0") (simp_all add: sgn_if pos_imp_zdiv_nonneg_iff)
  ultimately show ?thesis using assms(2) by (auto split: if_splits)
qed

lemma int_mul_trunc_nonneg:
  assumes "0 \<le> n" and "0 \<le> c"
    and "int_mul_float n (Finite c e) = Inr x" and "int_of_float x = Inr a"
  shows "0 \<le> a"
proof -
  obtain y where y: "float_of_int n = Inr y" and x: "x = float_mul y (Finite c e)"
    using assms(3) by (auto simp: int_mul_float_def split: sum.splits)
  obtain m s where ms: "y = Finite m s" "0 \<le> m"
    using y unfolding float_of_int_def round_binary64_nonneg_eq [OF assms(1)]
    by (auto split: if_splits intro: rne_shift_nonneg [OF assms(1)])
  have N: "0 \<le> m * c" using ms(2) assms(2) by simp
  have "x = round_binary64 (m * c) (s + e)" using x ms(1) by simp
  then obtain m' e' where "x = Finite m' e'" "0 \<le> m'"
    using assms(4) unfolding round_binary64_nonneg_eq [OF N]
    by (auto split: if_splits intro: rne_shift_nonneg [OF N])
  then show ?thesis using assms(4) int_of_float_nonneg by blast
qed

lemma int_mul_float_total:
  assumes "0 \<le> n" and "n < 2 ^ 1021" and "0 \<le> c" and "c < 2 ^ 53"
  shows "\<exists>x a. int_mul_float n (Finite c (- 52)) = Inr x \<and> int_of_float x = Inr a \<and> 0 \<le> a"
proof -
  define s where "s = nat (bitlen n - 53)"
  define m where "m = rne_shift n s"
  have lim: "n < 2 ^ 1024 - 2 ^ 970" using assms(2) limit_gt by linarith
  have f: "float_of_int n = Inr (Finite m (int s))"
    unfolding m_def s_def using assms(1) lim by (rule float_of_int_in_range)
  have m0: "0 \<le> m" unfolding m_def using assms(1) by (rule rne_shift_nonneg)
  have "m * 2 ^ s \<le> 2 * n"
    unfolding m_def s_def using assms(1) by (rule rne_shift_le_double)
  then have v: "m * 2 ^ s < 2 ^ 1022" using assms(2) by simp
  define N where "N = m * c"
  have N0: "0 \<le> N" using m0 assms(3) by (simp add: N_def)
  define t where "t = nat (max (bitlen N - 53) (- 1074 - (int s + - 52)))"
  have t: "t = nat (bitlen N - 53)" by (simp add: t_def)
  define m' where "m' = rne_shift N t"
  have m'0: "0 \<le> m'" unfolding m'_def using N0 by (rule rne_shift_nonneg)
  have no: "\<not> (0 < m' \<and> 1024 < bitlen m' + (int s + - 52 + int t))"
  proof
    assume h: "0 < m' \<and> 1024 < bitlen m' + (int s + - 52 + int t)"
    then have "N \<noteq> 0" by (auto simp: m'_def rne_shift_zero_arg)
    then have mpos: "0 < m" and cpos: "0 < c"
      using m0 assms(3) by (auto simp: N_def intro: le_neq_trans)
    have b1: "bitlen m + int s \<le> 1022"
      using bitlen_times_pow2_le [OF mpos v] by simp
    have "m' * 2 ^ t \<le> 2 * N"
      unfolding m'_def t using N0 by (rule rne_shift_le_double)
    also have "2 * N < m * 2 ^ 54"
    proof -
      define W where "W = m * 2 ^ 53"
      have "N < W" unfolding N_def W_def using assms(4) mpos by (rule mult_strict_left_mono)
      moreover have "m * 2 ^ 54 = 2 * W" by (simp add: W_def)
      ultimately show ?thesis by simp
    qed
    also have "m * 2 ^ 54 < 2 ^ nat (bitlen m) * 2 ^ 54"
      using bitlen_bounds [OF mpos] by simp
    also have "\<dots> = 2 ^ (nat (bitlen m) + 54)" by (simp only: power_add)
    finally have "bitlen m' + int t \<le> int (nat (bitlen m) + 54)"
      using h by (intro bitlen_times_pow2_le) simp_all
    then have "bitlen m' + int t \<le> bitlen m + 54" using bitlen_nonneg [of m] by simp
    with b1 h show False by simp
  qed
  have "round_binary64 N (int s + - 52) = Finite m' (int s + - 52 + int t)"
    unfolding round_binary64_nonneg_eq [OF N0] t_def [symmetric] m'_def [symmetric]
    using no by simp
  then have x: "int_mul_float n (Finite c (- 52)) = Inr (Finite m' (int s + - 52 + int t))"
    by (simp add: int_mul_float_def f N_def)
  obtain a where a: "int_of_float (Finite m' (int s + - 52 + int t)) = Inr a" by simp
  then have "0 \<le> a" using m'0 int_of_float_nonneg by blast
  with x a show ?thesis by blast
qed

lemma int_mul_float_pow2_le:
  assumes "0 \<le> n" and "n < 2 ^ 1024 - 2 ^ 970" and "k \<le> 2"
  shows "\<exists>x. int_mul_float n (Finite 1 (- int k)) = Inr x
           \<and> (\<forall>a. int_le_float a x \<longleftrightarrow> a * 2 ^ k \<le> nearest_float n)"
proof -
  define s where "s = nat (bitlen n - 53)"
  define m where "m = rne_shift n s"
  define e0 where "e0 = int s + - int k"
  have f: "float_of_int n = Inr (Finite m (int s))"
    unfolding m_def s_def using assms(1,2) by (rule float_of_int_in_range)
  have bnd: "0 < m \<longrightarrow> bitlen m + int s \<le> 1024"
    using float_of_int_finite_bound [OF assms(1) f] by blast
  have m0: "0 \<le> m" unfolding m_def using assms(1) by (rule rne_shift_nonneg)
  have m53: "m \<le> 2 ^ 53" unfolding m_def s_def using assms(1) by (rule rne_shift_le_pow53)
  have nf: "nearest_float n = m * 2 ^ s"
    using nearest_float_nonneg_eq [OF assms(1)] by (simp add: m_def s_def)
  have "\<exists>m' e'. round_binary64 m e0 = Finite m' e' \<and> 0 \<le> e' + int k
          \<and> m' * 2 ^ nat (e' + int k) = m * 2 ^ s"
  proof (cases "m < 2 ^ 53")
    case True
    then have b: "bitlen m \<le> 53" by (simp add: bitlen_le_iff_power)
    then have t: "nat (max (bitlen m - 53) (- 1074 - e0)) = 0"
      using assms(3) by (simp add: e0_def)
    have "\<not> (0 < m \<and> 1024 < bitlen m + (e0 + 0))" using bnd by (auto simp: e0_def)
    then have "round_binary64 m e0 = Finite m e0"
      unfolding round_binary64_nonneg_eq [OF m0] t by (simp add: rne_shift_0)
    moreover have "nat (e0 + int k) = s" by (simp add: e0_def)
    ultimately show ?thesis by (simp add: e0_def)
  next
    case False
    with m53 have m: "m = 2 ^ 53" by simp
    have b: "bitlen m = 54" unfolding m using bitlen_twopow_add_eq [of 0 53] by simp
    then have t: "nat (max (bitlen m - 53) (- 1074 - e0)) = 1"
      using assms(3) by (simp add: e0_def)
    have r: "rne_shift m 1 = 2 ^ 52" by (simp add: m rne_shift_def)
    have b52: "bitlen ((2::int) ^ 52) = 53" using bitlen_twopow_add_eq [of 0 52] by simp
    have s970: "int s \<le> 970" using bnd b by (simp add: m)
    have "\<not> (0 < (2::int) ^ 52 \<and> 1024 < bitlen ((2::int) ^ 52) + (e0 + 1))"
      unfolding b52 using s970 by (simp add: e0_def)
    then have "round_binary64 m e0 = Finite (2 ^ 52) (e0 + 1)"
      unfolding round_binary64_nonneg_eq [OF m0] t r by simp
    moreover have "nat (e0 + 1 + int k) = Suc s" by (simp add: e0_def)
    ultimately show ?thesis by (simp add: e0_def m)
  qed
  then obtain m' e' where r: "round_binary64 m e0 = Finite m' e'"
    and e: "0 \<le> e' + int k" and v: "m' * 2 ^ nat (e' + int k) = m * 2 ^ s" by blast
  have "int_mul_float n (Finite 1 (- int k)) = Inr (Finite m' e')"
    using r by (simp add: int_mul_float_def f e0_def)
  moreover have "\<forall>a. int_le_float a (Finite m' e') \<longleftrightarrow> a * 2 ^ k \<le> nearest_float n"
    using int_le_float_scale [OF e] by (simp add: v nf)
  ultimately show ?thesis by blast
qed

subsection \<open>The truncated products and the exact quotients\<close>

lemma int_mul_float_1_2_trunc:
  assumes "0 \<le> n" and "n < 3752999689475414"
  shows "(case int_mul_float n float_1_2 of Inl err \<Rightarrow> Inl err | Inr x \<Rightarrow> int_of_float x)
           = Inr (n * 6 div 5)"
  using int_mul_float_1_2 [OF assms] by auto

lemma int_mul_float_1_1_low:
  assumes "0 \<le> n" and "n < 511772684928466"
  shows "(case int_mul_float n float_1_1 of Inl err \<Rightarrow> Inl err | Inr x \<Rightarrow> int_of_float x)
           = Inr (n * 11 div 10)"
proof -
  define N where "N = n * 4953959590107546"
  define s where "s = nat (bitlen N - 53)"
  have N101: "N < 2 ^ 101" using assms(2) by (simp add: N_def)
  then have N105: "N < 2 ^ 105" by simp
  have N0: "0 \<le> N" using assms(1) by (simp add: N_def)
  have "bitlen N \<le> 101" using N101 by (simp add: bitlen_le_iff_power)
  then have s: "s \<le> 52" by (simp add: s_def)
  have "n < 2 ^ 53" using assms(2) by simp
  then have f: "float_of_int n = Inr (Finite n 0)"
    using assms(1) by (intro float_of_int_exact)
  have r: "round_binary64 N (- 52) = Finite (rne_shift N s) (int s - 52)"
    unfolding s_def using N0 N105 by (rule round_binary64_product)
  have "int_of_float (Finite (rne_shift N s) (int s - 52))
          = Inr (rne_shift N s * 2 ^ s div 2 ^ 52)"
    using s N0 by (intro int_of_float_scaled rne_shift_nonneg)
  also have "rne_shift N s * 2 ^ s div 2 ^ 52 = n * 11 div 10"
    unfolding s_def N_def using assms(1) N101 [unfolded N_def] by (rule mul_1_1_trunc)
  finally have "int_of_float (round_binary64 N (- 52)) = Inr (n * 11 div 10)"
    by (simp only: r)
  then show ?thesis
    by (simp add: int_mul_float_def f float_1_1_def N_def)
qed

lemma int_mul_float_1_1_466:
  "(case int_mul_float 511772684928466 float_1_1 of Inl err \<Rightarrow> Inl err | Inr x \<Rightarrow> int_of_float x)
     = Inr (511772684928466 * 11 div 10)"
  by code_simp

lemma int_mul_float_1_1_467:
  "(case int_mul_float 511772684928467 float_1_1 of Inl err \<Rightarrow> Inl err | Inr x \<Rightarrow> int_of_float x)
     = Inr (511772684928467 * 11 div 10)"
  by code_simp

lemma int_mul_float_1_1_468:
  "(case int_mul_float 511772684928468 float_1_1 of Inl err \<Rightarrow> Inl err | Inr x \<Rightarrow> int_of_float x)
     = Inr (511772684928468 * 11 div 10)"
  by code_simp

lemma int_mul_float_1_1_trunc:
  assumes "0 \<le> n" and "n < 511772684928469"
  shows "(case int_mul_float n float_1_1 of Inl err \<Rightarrow> Inl err | Inr x \<Rightarrow> int_of_float x)
           = Inr (n * 11 div 10)"
proof (cases "n < 511772684928466")
  case True
  with assms(1) show ?thesis by (rule int_mul_float_1_1_low)
next
  case False
  with assms(2) have "n = 511772684928466 \<or> n = 511772684928467 \<or> n = 511772684928468"
    by arith
  then show ?thesis
    using int_mul_float_1_1_466 int_mul_float_1_1_467 int_mul_float_1_1_468 by blast
qed

lemma compute_restock_amount_nonneg:
  assumes "0 \<le> rq"
  shows "compute_restock_amount rq pr cat =
           (if pr = high then rq * 6 div 5
            else if cat = Some high_volume then rq * 11 div 10 else rq)"
proof -
  have a: "(of_int rq :: rat) * (12 / 10) = of_int (rq * 6) / of_int 5" by simp
  have b: "(of_int rq :: rat) * (11 / 10) = of_int (rq * 11) / of_int 10" by simp
  have "0 \<le> (of_int rq :: rat) * (12 / 10)" "0 \<le> (of_int rq :: rat) * (11 / 10)"
    using assms by simp_all
  then show ?thesis
    unfolding compute_restock_amount_def trunc_toward_zero_def
    by (simp only: if_True a b floor_divide_of_int_eq)
qed

section \<open>Integers as text: when a conversion raises\<close>

lemma pow_1025_lt_str_limit: "(2::int) ^ 1025 < str_limit"
proof -
  have "(2::int) ^ 1025 < 10 ^ 1025" by (rule power_strict_mono) simp_all
  also have "(10::int) ^ 1025 \<le> 10 ^ 4300" by (rule power_increasing) simp_all
  finally show ?thesis unfolding str_limit_def max_str_digits_def .
qed

lemma str_limit_pos: "0 < str_limit"
  unfolding str_limit_def by (rule zero_less_power) simp

lemma str_int_iff: "str_int n = Inr () \<longleftrightarrow> \<bar>n\<bar> < str_limit"
  by (simp add: str_int_def)

lemma str_int_small: "\<bar>n\<bar> < 2 ^ 1025 \<Longrightarrow> str_int n = Inr ()"
  using pow_1025_lt_str_limit by (simp add: str_int_def)

lemma str_int_limit: "str_int str_limit = Inl ValueError"
  using str_limit_pos by (simp add: str_int_def)

lemma str_int_cases: "str_int n = Inr () \<or> str_int n = Inl ValueError"
  by (simp add: str_int_def)

lemma fstring_iff: "fstring ns = Inr () \<longleftrightarrow> (\<forall>n \<in> set ns. \<bar>n\<bar> < str_limit)"
proof (induction ns)
  case Nil
  show ?case by simp
next
  case (Cons n ns)
  show ?case
    using Cons.IH str_int_cases [of n] str_int_iff [of n] by (cases "str_int n") auto
qed

lemma fstring_cases: "fstring ns = Inr () \<or> fstring ns = Inl ValueError"
proof (induction ns)
  case Nil
  show ?case by simp
next
  case (Cons n ns)
  then show ?case
    using str_int_cases [of n] by (cases "str_int n") auto
qed

lemma fstring_raises: "fstring ns = Inl ValueError \<longleftrightarrow> (\<exists>n \<in> set ns. str_limit \<le> \<bar>n\<bar>)"
  using fstring_cases [of ns] fstring_iff [of ns] by (auto simp: not_less [symmetric])

lemma fstring_nil [simp]: "log_operation [] = Inr ()"
  by (simp add: log_operation_def)

lemma set_json_ints:
  "set (json_ints d) = (\<Union>(k, p) \<in> set d. set (product_ints p))"
  by (auto simp: json_ints_def)

lemma json_ints_product:
  assumes "fstring (json_ints d) = Inr ()" and "(k, p) \<in> set d"
  shows "fstring (product_ints p) = Inr ()"
  using assms unfolding fstring_iff set_json_ints by blast

lemma json_ints_update:
  assumes "fstring (json_ints d) = Inr ()" and "fstring (product_ints p) = Inr ()"
  shows "fstring (json_ints (AList.update k p d)) = Inr ()"
proof -
  have sub: "set (AList.update k p d) \<subseteq> insert (k, p) (set d)"
    by (induction d) auto
  show ?thesis
    unfolding fstring_iff set_json_ints
  proof (intro ballI)
    fix n
    assume "n \<in> (\<Union>(k, p) \<in> set (AList.update k p d). set (product_ints p))"
    then obtain k' p' where kp: "(k', p') \<in> set (AList.update k p d)"
      and n: "n \<in> set (product_ints p')" by blast
    from kp sub have "(k', p') = (k, p) \<or> (k', p') \<in> set d" by blast
    then have "fstring (product_ints p') = Inr ()"
      using assms json_ints_product by blast
    with n show "\<bar>n\<bar> < str_limit" unfolding fstring_iff by blast
  qed
qed

lemma load_data_ints: "fstring (json_ints (load_data st)) = Inr ()"
proof (cases "data_file st")
  case None
  then show ?thesis by (simp add: load_data_def json_ints_def)
next
  case (Some d)
  then show ?thesis
    using fstring_cases [of "json_ints d"]
    by (auto simp: load_data_def json_ints_def)
qed

lemma load_data_product:
  assumes "map_of (load_data st) k = Some p"
  shows "fstring (product_ints p) = Inr ()"
proof -
  have "(k, p) \<in> set (load_data st)" using assms by (rule map_of_SomeD)
  with load_data_ints show ?thesis by (rule json_ints_product)
qed

lemma product_ints_iff:
  "fstring (product_ints p) = Inr () \<longleftrightarrow>
     \<bar>stock_quantity p\<bar> < str_limit \<and> \<bar>min_threshold p\<bar> < str_limit
     \<and> \<bar>restock_quantity p\<bar> < str_limit"
  unfolding fstring_iff by (simp add: product_ints_def)

lemma save_data_ok:
  assumes "fstring (json_ints d) = Inr ()"
  shows "save_data d st = (Inr (), st\<lparr>data_file := Some d, saves := Suc (saves st)\<rparr>)"
  using assms by (simp add: save_data_def)

lemma load_data_saved:
  assumes "fstring (json_ints d) = Inr ()"
  shows "load_data (st\<lparr>data_file := Some d, saves := n\<rparr>) = d"
  using assms by (simp add: load_data_def)

section \<open>Restock amount\<close>

lemma int_of_float_lt:
  assumes "0 \<le> m" and "\<not> (0 < m \<and> 1024 < bitlen m + e)"
    and "int_of_float (Finite m e) = Inr a"
  shows "a < 2 ^ 1024"
proof (cases "m = 0")
  case True
  with assms(3) show ?thesis by (auto split: if_splits)
next
  case False
  with assms(1,2) have mpos: "0 < m" and b: "bitlen m + e \<le> 1024" by simp_all
  have mlt: "m < 2 ^ nat (bitlen m)" using bitlen_bounds [OF mpos] by simp
  show ?thesis
  proof (cases "0 \<le> e")
    case True
    then have a: "a = m * 2 ^ nat e" using assms(3) by simp
    have "m * 2 ^ nat e < 2 ^ nat (bitlen m) * 2 ^ nat e" using mlt by simp
    also have "\<dots> = 2 ^ (nat (bitlen m) + nat e)" by (simp only: power_add)
    also have "\<dots> \<le> 2 ^ 1024"
      using b True bitlen_nonneg [of m] by (intro power_increasing) auto
    finally show ?thesis by (simp only: a)
  next
    case False
    define k where "k = nat (- e)"
    have a: "a = m div 2 ^ k" using assms(3) False mpos by (simp add: sgn_if k_def)
    show ?thesis
    proof (rule ccontr)
      assume "\<not> a < 2 ^ 1024"
      then have "2 ^ 1024 \<le> a" by simp
      then have "2 ^ 1024 * 2 ^ k \<le> a * (2::int) ^ k" by (intro mult_right_mono) simp_all
      also have "a * 2 ^ k \<le> m"
      proof -
        have "m div 2 ^ k * 2 ^ k + m mod 2 ^ k = m" by (rule div_mult_mod_eq)
        moreover have "0 \<le> m mod (2::int) ^ k" by simp
        ultimately show ?thesis unfolding a by linarith
      qed
      also note mlt
      also have "(2::int) ^ nat (bitlen m) \<le> 2 ^ (1024 + k)"
        using b False by (intro power_increasing) (auto simp: k_def)
      finally show False by (simp add: power_add)
    qed
  qed
qed

lemma int_mul_trunc_lt:
  assumes "0 \<le> n" and "0 \<le> c"
    and "int_mul_float n (Finite c e) = Inr x" and "int_of_float x = Inr a"
  shows "a < 2 ^ 1024"
proof -
  obtain y where y: "float_of_int n = Inr y" and x: "x = float_mul y (Finite c e)"
    using assms(3) by (auto simp: int_mul_float_def split: sum.splits)
  obtain m s where ms: "y = Finite m s" "0 \<le> m"
    using y unfolding float_of_int_def round_binary64_nonneg_eq [OF assms(1)]
    by (auto split: if_splits intro: rne_shift_nonneg [OF assms(1)])
  have N: "0 \<le> m * c" using ms(2) assms(2) by simp
  define t where "t = nat (max (bitlen (m * c) - 53) (- 1074 - (s + e)))"
  have "x = round_binary64 (m * c) (s + e)" using x ms(1) by simp
  then have "x = Finite (rne_shift (m * c) t) (s + e + int t)
               \<and> \<not> (0 < rne_shift (m * c) t
                      \<and> 1024 < bitlen (rne_shift (m * c) t) + (s + e + int t))"
    using assms(4) unfolding round_binary64_nonneg_eq [OF N] t_def [symmetric]
    by (auto split: if_splits)
  then show ?thesis
    using assms(4) rne_shift_nonneg [OF N, of t] int_of_float_lt by blast
qed

lemma mul_trunc_case_lt:
  assumes "0 \<le> n" and "0 \<le> c"
    and "(case int_mul_float n (Finite c e) of Inl err \<Rightarrow> Inl err | Inr x \<Rightarrow> int_of_float x)
           = Inr a"
  shows "a < 2 ^ 1024"
proof (cases "int_mul_float n (Finite c e)")
  case (Inl err)
  then show ?thesis using assms(3) by simp
next
  case (Inr x)
  then have "int_of_float x = Inr a" using assms(3) by simp
  with assms(1,2) Inr show ?thesis by (rule int_mul_trunc_lt)
qed

lemma actual_restock_stock [simp]:
  "actual_restock (p\<lparr>stock_quantity := s\<rparr>) = actual_restock p"
  by (simp add: actual_restock_def Let_def)

lemma mul_trunc_case_nonneg:
  assumes "0 \<le> n" and "0 \<le> c"
    and "(case int_mul_float n (Finite c e) of Inl err \<Rightarrow> Inl err | Inr x \<Rightarrow> int_of_float x)
           = Inr a"
  shows "0 \<le> a"
proof (cases "int_mul_float n (Finite c e)")
  case (Inl err)
  then show ?thesis using assms(3) by simp
next
  case (Inr x)
  then have "int_of_float x = Inr a" using assms(3) by simp
  with assms(1,2) Inr show ?thesis by (rule int_mul_trunc_nonneg)
qed

lemma actual_restock_high:
  "priority p = high \<Longrightarrow>
   actual_restock p =
     (case int_mul_float (restock_quantity p) float_1_2 of
        Inl err \<Rightarrow> Inl err | Inr x \<Rightarrow> int_of_float x)"
  by (simp add: actual_restock_def Let_def)

lemma actual_restock_volume:
  "priority p \<noteq> high \<Longrightarrow> category p = Some high_volume \<Longrightarrow>
   actual_restock p =
     (case int_mul_float (restock_quantity p) float_1_1 of
        Inl err \<Rightarrow> Inl err | Inr x \<Rightarrow> int_of_float x)"
  by (simp add: actual_restock_def Let_def)

lemma actual_restock_plain:
  "priority p \<noteq> high \<Longrightarrow> category p \<noteq> Some high_volume \<Longrightarrow>
   actual_restock p = Inr (restock_quantity p)"
  by (simp add: actual_restock_def Let_def)

lemma actual_restock_nonneg:
  assumes "0 \<le> restock_quantity p" and "actual_restock p = Inr a"
  shows "0 \<le> a"
proof (cases "priority p = high")
  case True
  have c: "(0::int) \<le> 5404319552844595" by simp
  show ?thesis
    using assms(1) c assms(2) [unfolded actual_restock_high [OF True] float_1_2_def]
    by (rule mul_trunc_case_nonneg)
next
  case False
  show ?thesis
  proof (cases "category p = Some high_volume")
    case True
    have c: "(0::int) \<le> 4953959590107546" by simp
    show ?thesis
      using assms(1) c assms(2) [unfolded actual_restock_volume [OF False True] float_1_1_def]
      by (rule mul_trunc_case_nonneg)
  next
    case False
    with \<open>priority p \<noteq> high\<close> assms show ?thesis by (simp add: actual_restock_plain)
  qed
qed

lemma actual_restock_total:
  assumes "0 \<le> restock_quantity p" and "restock_quantity p < 2 ^ 1021"
  shows "\<exists>a. actual_restock p = Inr a \<and> 0 \<le> a"
proof -
  have "\<exists>a. actual_restock p = Inr a"
  proof (cases "priority p = high")
    case True
    have "\<exists>x a. int_mul_float (restock_quantity p) (Finite 5404319552844595 (- 52)) = Inr x
            \<and> int_of_float x = Inr a \<and> 0 \<le> a"
      using assms by (rule int_mul_float_total) simp_all
    then show ?thesis
      unfolding actual_restock_high [OF True] float_1_2_def by auto
  next
    case False
    show ?thesis
    proof (cases "category p = Some high_volume")
      case True
      have "\<exists>x a. int_mul_float (restock_quantity p) (Finite 4953959590107546 (- 52)) = Inr x
              \<and> int_of_float x = Inr a \<and> 0 \<le> a"
        using assms by (rule int_mul_float_total) simp_all
      then show ?thesis
        unfolding actual_restock_volume [OF False True] float_1_1_def by auto
    next
      case False
      with \<open>priority p \<noteq> high\<close> show ?thesis by (simp add: actual_restock_plain)
    qed
  qed
  then show ?thesis using actual_restock_nonneg [OF assms(1)] by blast
qed

lemma actual_restock_compute:
  assumes "0 \<le> restock_quantity p"
    and "priority p = high \<longrightarrow> restock_quantity p < 3752999689475414"
    and "priority p \<noteq> high \<and> category p = Some high_volume \<longrightarrow>
           restock_quantity p < 511772684928469"
  shows "actual_restock p =
           Inr (compute_restock_amount (restock_quantity p) (priority p) (category p))"
proof (cases "priority p = high")
  case True
  with assms(2) have "restock_quantity p < 3752999689475414" by simp
  from int_mul_float_1_2_trunc [OF assms(1) this] True show ?thesis
    by (simp add: actual_restock_high compute_restock_amount_nonneg [OF assms(1)])
next
  case False
  show ?thesis
  proof (cases "category p = Some high_volume")
    case True
    with assms(3) False have "restock_quantity p < 511772684928469" by simp
    from int_mul_float_1_1_trunc [OF assms(1) this] True False show ?thesis
      by (simp add: actual_restock_volume compute_restock_amount_nonneg [OF assms(1)])
  next
    case False
    with \<open>priority p \<noteq> high\<close> show ?thesis
      by (simp add: actual_restock_plain compute_restock_amount_nonneg [OF assms(1)])
  qed
qed

text \<open>
  C2, as amended. For \<open>restock_quantity \<ge> 0\<close> the amount the code computes,
  \<open>int(restock_quantity * 1.2)\<close> for priority high, else \<open>int(restock_quantity * 1.1)\<close>
  for category \<open>high_volume\<close>, else \<open>restock_quantity\<close>, equals the truncated real-valued
  product \<open>compute_restock_amount\<close> whenever \<open>restock_quantity < 3752999689475414\<close> in
  the first case and \<open>restock_quantity < 511772684928469\<close> in the second (no bound in the
  third). At these two bounds the binary64 product rounds up to the next integer.
\<close>

theorem actual_restock_truncates:
  assumes "0 \<le> restock_quantity p"
    and "priority p = high \<longrightarrow> restock_quantity p < 3752999689475414"
    and "priority p \<noteq> high \<and> category p = Some high_volume \<longrightarrow>
           restock_quantity p < 511772684928469"
  shows "actual_restock p =
           Inr (compute_restock_amount (restock_quantity p) (priority p) (category p))"
  using assms by (rule actual_restock_compute)

theorem actual_restock_truncates_witness:
  "actual_restock (gadget\<lparr>restock_quantity := 100\<rparr>) = Inr 120
   \<and> actual_restock (widget\<lparr>restock_quantity := 100, category := Some high_volume\<rparr>) = Inr 110
   \<and> actual_restock (widget\<lparr>restock_quantity := 100, priority := low\<rparr>) = Inr 100"
proof -
  have 1: "compute_restock_amount 100 high None = 120"
    and 2: "compute_restock_amount 100 medium (Some high_volume) = 110"
    and 3: "compute_restock_amount 100 low (Some low_volume) = 100"
    by (simp_all add: compute_restock_amount_def trunc_toward_zero_def)
  have "actual_restock (gadget\<lparr>restock_quantity := 100\<rparr>) = Inr 120"
    using actual_restock_truncates [of "gadget\<lparr>restock_quantity := 100\<rparr>"] 1
    by (simp add: gadget_def)
  moreover have "actual_restock (widget\<lparr>restock_quantity := 100, category := Some high_volume\<rparr>)
                   = Inr 110"
    using actual_restock_truncates
            [of "widget\<lparr>restock_quantity := 100, category := Some high_volume\<rparr>"] 2
    by (simp add: widget_def)
  moreover have "actual_restock (widget\<lparr>restock_quantity := 100, priority := low\<rparr>) = Inr 100"
    using actual_restock_truncates [of "widget\<lparr>restock_quantity := 100, priority := low\<rparr>"] 3
    by (simp add: widget_def)
  ultimately show ?thesis by blast
qed

theorem actual_restock_rounding_counterexample:
  "0 \<le> restock_quantity edge_restock \<and> priority edge_restock = high
   \<and> actual_restock edge_restock = Inr 4503599627370497
   \<and> compute_restock_amount (restock_quantity edge_restock) (priority edge_restock)
        (category edge_restock) = 4503599627370496"
proof -
  have "actual_restock edge_restock = Inr 4503599627370497" by code_simp
  moreover have "compute_restock_amount 3752999689475414 high (Some high_volume)
                   = 4503599627370496"
    by (simp add: compute_restock_amount_nonneg)
  ultimately show ?thesis by (simp add: edge_restock_def)
qed

lemma actual_restock_lt:
  assumes "0 \<le> restock_quantity p" and "restock_quantity p < 2 ^ 1021"
    and "actual_restock p = Inr a"
  shows "a < 2 ^ 1024"
proof (cases "priority p = high")
  case True
  have c: "(0::int) \<le> 5404319552844595" by simp
  show ?thesis
    using assms(1) c assms(3) [unfolded actual_restock_high [OF True] float_1_2_def]
    by (rule mul_trunc_case_lt)
next
  case False
  show ?thesis
  proof (cases "category p = Some high_volume")
    case True
    have c: "(0::int) \<le> 4953959590107546" by simp
    show ?thesis
      using assms(1) c assms(3) [unfolded actual_restock_volume [OF False True] float_1_1_def]
      by (rule mul_trunc_case_lt)
  next
    case False
    with \<open>priority p \<noteq> high\<close> assms(3) have "a = restock_quantity p"
      by (simp add: actual_restock_plain)
    with assms(2) show ?thesis by simp
  qed
qed

section \<open>Status classifier\<close>

lemma small_lt_str_limit: "n < 2 ^ 1025 \<Longrightarrow> n < str_limit"
  using pow_1025_lt_str_limit by simp

lemma fstring_eq:
  "fstring ns = (if \<forall>n \<in> set ns. \<bar>n\<bar> < str_limit then Inr () else Inl ValueError)"
  using fstring_cases [of ns] fstring_iff [of ns] by auto

declare fstring.simps [simp del]

lemma get_inventory_status_cases:
  assumes "0 \<le> stock_quantity p" and "0 \<le> min_threshold p"
  shows "(stock_quantity p < str_limit \<and> min_threshold p < str_limit \<longrightarrow>
            (\<exists>s. get_inventory_status p = Inr s)
          \<and> (get_inventory_status p = Inr out_of_stock \<longleftrightarrow> stock_quantity p = 0)
          \<and> (get_inventory_status p = Inr below_threshold \<longleftrightarrow>
               0 < stock_quantity p \<and> stock_quantity p < min_threshold p)
          \<and> (get_inventory_status p = Inr ok \<longleftrightarrow>
               0 < stock_quantity p \<and> min_threshold p \<le> stock_quantity p))
       \<and> (str_limit \<le> stock_quantity p \<or> str_limit \<le> min_threshold p \<longrightarrow>
            get_inventory_status p = Inl ValueError)"
  using assms by (auto simp: get_inventory_status_def Let_def fstring_eq)

text \<open>
  C3, as amended. For all integers \<open>0 \<le> stock < 10 ^ 4300\<close> and
  \<open>0 \<le> threshold < 10 ^ 4300\<close> the status classifier returns exactly one of the three
  statuses: \<open>out_of_stock\<close> iff \<open>stock = 0\<close> (whatever the threshold),
  \<open>below_threshold\<close> iff \<open>0 < stock < threshold\<close>, and \<open>ok\<close> iff \<open>stock > 0\<close> and
  \<open>stock \<ge> threshold\<close>. When the stock or the threshold has more than 4300 digits the
  call raises ValueError instead of returning.
\<close>

theorem get_inventory_status_classifies:
  assumes "0 \<le> stock_quantity p" and "0 \<le> min_threshold p"
  shows "(stock_quantity p < str_limit \<and> min_threshold p < str_limit \<longrightarrow>
            (\<exists>s. get_inventory_status p = Inr s)
          \<and> (get_inventory_status p = Inr out_of_stock \<longleftrightarrow> stock_quantity p = 0)
          \<and> (get_inventory_status p = Inr below_threshold \<longleftrightarrow>
               0 < stock_quantity p \<and> stock_quantity p < min_threshold p)
          \<and> (get_inventory_status p = Inr ok \<longleftrightarrow>
               0 < stock_quantity p \<and> min_threshold p \<le> stock_quantity p))
       \<and> (str_limit \<le> stock_quantity p \<or> str_limit \<le> min_threshold p \<longrightarrow>
            get_inventory_status p = Inl ValueError)"
  using assms by (rule get_inventory_status_cases)

theorem get_inventory_status_classifies_witness:
  "0 \<le> stock_quantity widget \<and> 0 \<le> min_threshold widget
   \<and> stock_quantity widget < str_limit \<and> min_threshold widget < str_limit
   \<and> 0 < stock_quantity widget \<and> stock_quantity widget < min_threshold widget
   \<and> get_inventory_status widget = Inr below_threshold"
proof -
  have h: "0 \<le> stock_quantity widget" "0 \<le> min_threshold widget"
    by (simp_all add: widget_def)
  have b: "stock_quantity widget < str_limit" "min_threshold widget < str_limit"
    by (simp_all add: widget_def small_lt_str_limit)
  show ?thesis
    using h b get_inventory_status_classifies [OF h] by (simp add: widget_def)
qed

theorem get_inventory_status_limit_counterexample:
  "0 \<le> stock_quantity long_threshold \<and> 0 \<le> min_threshold long_threshold
   \<and> get_inventory_status long_threshold = Inl ValueError"
  using str_limit_pos
  by (simp add: long_threshold_def get_inventory_status_def fstring_eq)

section \<open>Restock decision\<close>

lemma nearest_float_exact:
  assumes "0 \<le> n" and "n \<le> 2 ^ 53"
  shows "nearest_float n = n"
proof (cases "n = 2 ^ 53")
  case True
  have "bitlen n = 54" unfolding True using bitlen_twopow_add_eq [of 0 53] by simp
  then have "nat (bitlen n - 53) = 1" by simp
  then show ?thesis
    unfolding nearest_float_nonneg_eq [OF assms(1)] by (simp add: True rne_shift_def)
next
  case False
  with assms(2) have "n < 2 ^ 53" by simp
  then have "bitlen n \<le> 53" by (simp add: bitlen_le_iff_power)
  then have "nat (bitlen n - 53) = 0" by simp
  then show ?thesis
    unfolding nearest_float_nonneg_eq [OF assms(1)] by (simp add: rne_shift_0)
qed

lemma stock_le_fraction:
  assumes "0 \<le> n" and "k \<le> 2"
  shows "(case int_mul_float n (Finite 1 (- int k)) of
            Inl err \<Rightarrow> Inl err
          | Inr x \<Rightarrow> Inr (int_le_float a x))
         = (if n < float_limit then Inr (a * 2 ^ k \<le> nearest_float n) else Inl OverflowError)"
proof (cases "n < float_limit")
  case True
  then have "n < 2 ^ 1024 - 2 ^ 970" by (simp only: float_limit_def)
  from int_mul_float_pow2_le [OF assms(1) this assms(2)] True show ?thesis by auto
next
  case False
  then have "2 ^ 1024 - 2 ^ 970 \<le> n" by (simp only: float_limit_def not_less)
  then have "float_of_int n = Inl OverflowError" by (rule float_of_int_overflow)
  then show ?thesis using False by (simp add: int_mul_float_def)
qed

lemma float_limit_lt_str_limit: "float_limit < str_limit"
proof -
  have "float_limit < 2 ^ 1025" by (simp add: float_limit_def)
  then show ?thesis by (rule small_lt_str_limit)
qed

lemma should_restock_flag_high:
  "priority p = high \<Longrightarrow>
   should_restock_flag p = Inr (stock_quantity p < min_threshold p)"
  by (simp add: should_restock_flag_def)

lemma should_restock_flag_medium:
  assumes "0 \<le> min_threshold p" and "priority p = medium"
  shows "should_restock_flag p =
           (if min_threshold p < float_limit
            then Inr (stock_quantity p * 2 \<le> nearest_float (min_threshold p))
            else Inl OverflowError)"
  using stock_le_fraction [OF assms(1), of 1 "stock_quantity p"] assms(2)
  by (simp add: should_restock_flag_def float_0_5_def)

lemma should_restock_flag_low:
  assumes "0 \<le> min_threshold p" and "priority p = low"
  shows "should_restock_flag p =
           (if min_threshold p < float_limit
            then Inr (stock_quantity p * 4 \<le> nearest_float (min_threshold p))
            else Inl OverflowError)"
  using stock_le_fraction [OF assms(1), of 2 "stock_quantity p"] assms(2)
  by (simp add: should_restock_flag_def float_0_25_def)

lemma should_restock_below:
  assumes "0 < stock_quantity p" and "stock_quantity p < min_threshold p"
  shows "should_restock p =
           (case should_restock_flag p of
              Inl err \<Rightarrow> Inl err
            | Inr False \<Rightarrow> Inr False
            | Inr True \<Rightarrow>
                (if min_threshold p < str_limit then Inr True else Inl ValueError))"
proof -
  have "fstring [stock_quantity p, min_threshold p] =
          (if min_threshold p < str_limit then Inr () else Inl ValueError)"
    using assms by (auto simp: fstring_eq)
  then show ?thesis
    using assms by (simp add: should_restock_def Let_def split: sum.split bool.split)
qed

lemma should_restock_cases:
  assumes "0 \<le> stock_quantity p" and "0 \<le> min_threshold p"
  shows "(stock_quantity p = 0 \<longrightarrow> should_restock p = Inr True)
       \<and> (0 < stock_quantity p \<and> min_threshold p \<le> stock_quantity p \<longrightarrow>
            should_restock p = Inr False)
       \<and> (0 < stock_quantity p \<and> stock_quantity p < min_threshold p \<longrightarrow>
            (priority p = high \<longrightarrow>
               should_restock p =
                 (if min_threshold p < str_limit then Inr True else Inl ValueError))
          \<and> (priority p = medium \<longrightarrow>
               should_restock p =
                 (if min_threshold p < float_limit
                  then Inr (stock_quantity p * 2 \<le> nearest_float (min_threshold p))
                  else Inl OverflowError))
          \<and> (priority p = low \<longrightarrow>
               should_restock p =
                 (if min_threshold p < float_limit
                  then Inr (stock_quantity p * 4 \<le> nearest_float (min_threshold p))
                  else Inl OverflowError)))
       \<and> (min_threshold p \<le> 2 ^ 53 \<longrightarrow> nearest_float (min_threshold p) = min_threshold p)"
proof -
  have fl: "min_threshold p < float_limit \<Longrightarrow> min_threshold p < str_limit"
    using float_limit_lt_str_limit by simp
  have 1: "stock_quantity p = 0 \<longrightarrow> should_restock p = Inr True"
    by (simp add: should_restock_def)
  have 2: "0 < stock_quantity p \<and> min_threshold p \<le> stock_quantity p \<longrightarrow>
            should_restock p = Inr False"
    by (simp add: should_restock_def)
  have 3: "0 < stock_quantity p \<and> stock_quantity p < min_threshold p \<longrightarrow>
            priority p = high \<longrightarrow>
               should_restock p =
                 (if min_threshold p < str_limit then Inr True else Inl ValueError)"
    by (simp add: should_restock_below should_restock_flag_high)
  have 4: "0 < stock_quantity p \<and> stock_quantity p < min_threshold p \<longrightarrow>
            priority p = medium \<longrightarrow>
               should_restock p =
                 (if min_threshold p < float_limit
                  then Inr (stock_quantity p * 2 \<le> nearest_float (min_threshold p))
                  else Inl OverflowError)"
    using fl
    by (auto simp: should_restock_below should_restock_flag_medium [OF assms(2)]
             split: bool.split)
  have 5: "0 < stock_quantity p \<and> stock_quantity p < min_threshold p \<longrightarrow>
            priority p = low \<longrightarrow>
               should_restock p =
                 (if min_threshold p < float_limit
                  then Inr (stock_quantity p * 4 \<le> nearest_float (min_threshold p))
                  else Inl OverflowError)"
    using fl
    by (auto simp: should_restock_below should_restock_flag_low [OF assms(2)]
             split: bool.split)
  have 6: "min_threshold p \<le> 2 ^ 53 \<longrightarrow> nearest_float (min_threshold p) = min_threshold p"
    using nearest_float_exact [OF assms(2)] by blast
  from 1 2 3 4 5 6 show ?thesis by blast
qed

text \<open>
  C1, as amended. For all integers \<open>stock \<ge> 0\<close> and \<open>threshold \<ge> 0\<close> and every priority,
  \<open>should_restock\<close> returns true when \<open>stock = 0\<close>, false when \<open>stock > 0\<close> and
  \<open>stock \<ge> threshold\<close>, and for \<open>0 < stock < threshold\<close>: for priority high, true
  provided \<open>threshold < 10 ^ 4300\<close>; for priority medium (low), provided
  \<open>threshold < 2 ^ 1024 - 2 ^ 970\<close>, true iff \<open>stock \<le> float(threshold) * 0.5\<close>
  (\<open>* 0.25\<close>), that is iff twice (four times) the stock is at most the threshold rounded
  to 53 significant bits, which is the threshold itself up to \<open>2 ^ 53\<close>. Beyond these
  bounds the call raises instead of returning: ValueError for priority high (the message
  it logs cannot be written), OverflowError for medium and low (the threshold is no float).
\<close>

theorem should_restock_rule:
  assumes "0 \<le> stock_quantity p" and "0 \<le> min_threshold p"
  shows "(stock_quantity p = 0 \<longrightarrow> should_restock p = Inr True)
       \<and> (0 < stock_quantity p \<and> min_threshold p \<le> stock_quantity p \<longrightarrow>
            should_restock p = Inr False)
       \<and> (0 < stock_quantity p \<and> stock_quantity p < min_threshold p \<longrightarrow>
            (priority p = high \<longrightarrow>
               should_restock p =
                 (if min_threshold p < str_limit then Inr True else Inl ValueError))
          \<and> (priority p = medium \<longrightarrow>
               should_restock p =
                 (if min_threshold p < float_limit
                  then Inr (stock_quantity p * 2 \<le> nearest_float (min_threshold p))
                  else Inl OverflowError))
          \<and> (priority p = low \<longrightarrow>
               should_restock p =
                 (if min_threshold p < float_limit
                  then Inr (stock_quantity p * 4 \<le> nearest_float (min_threshold p))
                  else Inl OverflowError)))
       \<and> (min_threshold p \<le> 2 ^ 53 \<longrightarrow> nearest_float (min_threshold p) = min_threshold p)"
  using assms by (rule should_restock_cases)

theorem should_restock_rule_witness:
  "0 \<le> stock_quantity widget \<and> 0 \<le> min_threshold widget
   \<and> 0 < stock_quantity widget \<and> stock_quantity widget < min_threshold widget
   \<and> priority widget = medium \<and> min_threshold widget < float_limit
   \<and> min_threshold widget \<le> 2 ^ 53
   \<and> should_restock widget = Inr True"
proof -
  have h: "0 \<le> stock_quantity widget" "0 \<le> min_threshold widget"
    by (simp_all add: widget_def)
  show ?thesis
    using should_restock_rule [OF h] by (simp add: widget_def float_limit_def)
qed

theorem should_restock_overflow_counterexample:
  "0 \<le> stock_quantity big_threshold \<and> 0 \<le> min_threshold big_threshold
   \<and> should_restock big_threshold = Inl OverflowError
   \<and> 0 \<le> stock_quantity long_threshold \<and> 0 \<le> min_threshold long_threshold
   \<and> should_restock long_threshold = Inl ValueError"
proof -
  have "float_of_int (2 ^ 1024) = Inl OverflowError"
    by (rule float_of_int_overflow) simp
  then have b: "should_restock big_threshold = Inl OverflowError"
    by (simp add: big_threshold_def should_restock_def should_restock_flag_def
          int_mul_float_def)
  have "(1::int) < str_limit" by (rule small_lt_str_limit) simp
  then have l: "should_restock long_threshold = Inl ValueError"
    by (simp add: long_threshold_def should_restock_def should_restock_flag_def fstring_eq)
  have n: "0 \<le> min_threshold long_threshold"
    using str_limit_pos by (simp add: long_threshold_def)
  show ?thesis
    using b l n by (simp add: big_threshold_def long_threshold_def)
qed

lemma should_restock_zero:
  "stock_quantity p = 0 \<Longrightarrow> should_restock p = Inr True"
  by (simp add: should_restock_def)

lemma should_restock_total:
  assumes "0 \<le> stock_quantity p" and "min_threshold p < float_limit"
  shows "\<exists>t. should_restock p = Inr t"
proof (cases "stock_quantity p = 0 \<or> min_threshold p \<le> stock_quantity p")
  case True
  then show ?thesis by (auto simp: should_restock_def Let_def)
next
  case False
  with assms(1) have h: "0 \<le> stock_quantity p" "0 \<le> min_threshold p"
    and b: "0 < stock_quantity p \<and> stock_quantity p < min_threshold p"
    by simp_all
  have "min_threshold p < str_limit" using assms(2) float_limit_lt_str_limit by simp
  with should_restock_cases [OF h] b assms(2) show ?thesis
    by (cases "priority p") auto
qed

lemma should_restock_true_below:
  assumes "should_restock p = Inr True" and "stock_quantity p \<noteq> 0"
  shows "stock_quantity p < min_threshold p"
  using assms by (simp add: should_restock_def Let_def split: if_splits)

section \<open>Purchases that fail, and the read-only routes\<close>

lemma abs_small_lt_str_limit: "\<bar>n\<bar> < 2 ^ 1025 \<Longrightarrow> \<bar>n\<bar> < str_limit"
  by (rule small_lt_str_limit)

lemma widget_ints: "fstring (product_ints widget) = Inr ()"
  by (simp add: fstring_eq product_ints_def widget_def small_lt_str_limit)

lemma load_data_shop: "load_data shop = [(''w1'', widget)]"
  using widget_ints by (simp add: load_data_def shop_def json_ints_def)

lemma log_operation_eq:
  "log_operation ns = (if \<forall>n \<in> set ns. \<bar>n\<bar> < str_limit then Inr () else Inl ValueError)"
  by (simp add: log_operation_def fstring_eq)

lemma stored_ints:
  assumes "map_of (load_data st) pid = Some p"
  shows "\<bar>stock_quantity p\<bar> < str_limit \<and> \<bar>min_threshold p\<bar> < str_limit
         \<and> \<bar>restock_quantity p\<bar> < str_limit"
  using load_data_product [OF assms] by (simp only: product_ints_iff)

lemma purchase_product_short:
  assumes "map_of (load_data st) pid = Some p" and "stock_quantity p < quantity r"
  shows "purchase_product pid r st =
           (if quantity r < str_limit
            then (Inl (HTTPException 400
                         (Insufficient_stock (stock_quantity p) (quantity r))), st)
            else (Inl ValueError, st))"
proof -
  have s: "\<bar>stock_quantity p\<bar> < str_limit" using stored_ints [OF assms(1)] by simp
  have q: "\<bar>quantity r\<bar> < str_limit \<longleftrightarrow> quantity r < str_limit"
    using s assms(2) by auto
  show ?thesis
    using assms s q by (simp add: purchase_product_def Let_def log_operation_eq fstring_eq)
qed

text \<open>
  C5, as amended. For every stored product, \<open>purchase\<close> with a quantity above
  \<open>stock_quantity\<close> and below \<open>10 ^ 4300\<close> fails with the insufficient-stock error
  (HTTP 400), the error carries the available and the requested amounts, and the store
  is left as it was: nothing is saved. For a quantity of more than 4300 digits the call
  raises ValueError instead, and the store is left as it was as well.
\<close>

theorem purchase_product_insufficient:
  assumes "map_of (load_data st) pid = Some p" and "stock_quantity p < quantity r"
  shows "(quantity r < str_limit \<longrightarrow>
            purchase_product pid r st =
              (Inl (HTTPException 400
                      (Insufficient_stock (stock_quantity p) (quantity r))), st))
       \<and> (str_limit \<le> quantity r \<longrightarrow> purchase_product pid r st = (Inl ValueError, st))"
  using purchase_product_short [OF assms] by simp

theorem purchase_product_insufficient_witness:
  "map_of (load_data shop) ''w1'' = Some widget
   \<and> stock_quantity widget < quantity \<lparr>quantity = 6\<rparr>
   \<and> quantity \<lparr>quantity = 6\<rparr> < str_limit
   \<and> purchase_product ''w1'' \<lparr>quantity = 6\<rparr> shop =
       (Inl (HTTPException 400 (Insufficient_stock 5 6)), shop)"
proof -
  have h1: "map_of (load_data shop) ''w1'' = Some widget"
    by (simp add: load_data_shop)
  have h2: "stock_quantity widget < quantity \<lparr>quantity = 6\<rparr>"
    by (simp add: widget_def)
  have h3: "quantity \<lparr>quantity = 6\<rparr> < str_limit"
    by (simp add: small_lt_str_limit)
  show ?thesis
    using h1 h2 h3 purchase_product_insufficient [OF h1 h2] by (simp add: widget_def)
qed

theorem purchase_product_insufficient_counterexample:
  "map_of (load_data shop) ''w1'' = Some widget
   \<and> stock_quantity widget < quantity \<lparr>quantity = str_limit\<rparr>
   \<and> purchase_product ''w1'' \<lparr>quantity = str_limit\<rparr> shop = (Inl ValueError, shop)"
proof -
  have h1: "map_of (load_data shop) ''w1'' = Some widget"
    by (simp add: load_data_shop)
  have h2: "stock_quantity widget < quantity \<lparr>quantity = str_limit\<rparr>"
    by (simp add: widget_def small_lt_str_limit)
  show ?thesis
    using h1 h2 purchase_product_short [OF h1 h2] by simp
qed

text \<open>
  C10. \<open>get_status\<close> and \<open>list_status\<close> are read-only: whether the product is found or
  not, the store after the call is the store before it, with the same file and the
  same number of saves.
\<close>

theorem status_routes_read_only:
  "snd (inventory_status pid st) = st \<and> snd (get_all_inventory st) = st"
  by (simp add: inventory_status_def get_all_inventory_def Let_def
           split: option.split sum.split)

section \<open>Rules applied when a product is added\<close>

lemma add_product_new:
  assumes "map_of (load_data st) (product_id c) = None"
  shows "add_product c st =
           (let c1 = (if priority c = high \<and> min_threshold c < 10
                      then c\<lparr>min_threshold := 10\<rparr> else c);
                c2 = c1\<lparr>category :=
                       Some (if restock_quantity c1 > 50 then high_volume else low_volume)\<rparr>;
                d = AList.update (product_id c2) c2 (load_data st)
            in if fstring (product_ints c2) = Inr ()
               then (Inr \<lparr>pr_message = ''Product added successfully'', pr_product = c2\<rparr>,
                     st\<lparr>data_file := Some d, saves := Suc (saves st)\<rparr>)
               else (Inl ValueError, st\<lparr>data_file := None, saves := Suc (saves st)\<rparr>))"
proof -
  define c1 where "c1 = (if priority c = high \<and> min_threshold c < 10
                         then c\<lparr>min_threshold := 10\<rparr> else c)"
  define c2 where "c2 = c1\<lparr>category :=
                       Some (if restock_quantity c1 > 50 then high_volume else low_volume)\<rparr>"
  define d where "d = AList.update (product_id c2) c2 (load_data st)"
  have ten: "log_operation [10] = Inr ()"
    by (simp add: log_operation_eq small_lt_str_limit)
  have run: "add_product c st =
               (case save_data d st of
                  (Inl err, st') \<Rightarrow> (Inl err, st')
                | (Inr u, st') \<Rightarrow>
                    (case log_operation [stock_quantity c2] of
                       Inl err \<Rightarrow> (Inl err, st')
                     | Inr u \<Rightarrow>
                         (Inr \<lparr>pr_message = ''Product added successfully'',
                               pr_product = c2\<rparr>, st')))"
    unfolding d_def c2_def c1_def using assms ten by (simp add: add_product_def Let_def)
  have "add_product c st =
          (if fstring (product_ints c2) = Inr ()
           then (Inr \<lparr>pr_message = ''Product added successfully'', pr_product = c2\<rparr>,
                 st\<lparr>data_file := Some d, saves := Suc (saves st)\<rparr>)
           else (Inl ValueError, st\<lparr>data_file := None, saves := Suc (saves st)\<rparr>))"
  proof (cases "fstring (product_ints c2) = Inr ()")
    case True
    have "fstring (json_ints d) = Inr ()"
      unfolding d_def using load_data_ints True by (rule json_ints_update)
    then have "save_data d st = (Inr (), st\<lparr>data_file := Some d, saves := Suc (saves st)\<rparr>)"
      by (rule save_data_ok)
    moreover have "log_operation [stock_quantity c2] = Inr ()"
      using True by (simp add: product_ints_iff log_operation_eq)
    ultimately show ?thesis using True by (simp add: run)
  next
    case False
    have "map_of d (product_id c2) = Some c2" by (simp add: d_def update_conv')
    then have "(product_id c2, c2) \<in> set d" by (rule map_of_SomeD)
    then have "\<not> fstring (json_ints d) = Inr ()"
      using False json_ints_product by blast
    then have "fstring (json_ints d) = Inl ValueError"
      using fstring_cases [of "json_ints d"] by simp
    then show ?thesis using False by (simp add: run save_data_def)
  qed
  then show ?thesis by (simp add: Let_def c1_def c2_def d_def)
qed

lemma add_product_stored:
  assumes "map_of (load_data st) (product_id c) = None"
    and "\<bar>stock_quantity c\<bar> < str_limit" and "\<bar>min_threshold c\<bar> < str_limit"
    and "\<bar>restock_quantity c\<bar> < str_limit"
  shows "\<exists>p'. fst (add_product c st) =
                Inr \<lparr>pr_message = ''Product added successfully'', pr_product = p'\<rparr>
           \<and> map_of (load_data (snd (add_product c st))) (product_id c) = Some p'
           \<and> min_threshold p' =
               (if priority c = high \<and> min_threshold c < 10 then 10 else min_threshold c)
           \<and> category p' =
               Some (if restock_quantity c > 50 then high_volume else low_volume)"
proof -
  define c1 where "c1 = (if priority c = high \<and> min_threshold c < 10
                         then c\<lparr>min_threshold := 10\<rparr> else c)"
  define c2 where "c2 = c1\<lparr>category :=
                       Some (if restock_quantity c1 > 50 then high_volume else low_volume)\<rparr>"
  define d where "d = AList.update (product_id c2) c2 (load_data st)"
  have ten: "\<bar>10::int\<bar> < str_limit" by (simp add: small_lt_str_limit)
  have ok: "fstring (product_ints c2) = Inr ()"
    using assms(2-4) ten by (simp add: product_ints_iff c2_def c1_def)
  have run: "add_product c st =
               (Inr \<lparr>pr_message = ''Product added successfully'', pr_product = c2\<rparr>,
                st\<lparr>data_file := Some d, saves := Suc (saves st)\<rparr>)"
    using ok add_product_new [OF assms(1)] by (simp add: Let_def c1_def c2_def d_def)
  have "fstring (json_ints d) = Inr ()"
    unfolding d_def using load_data_ints ok by (rule json_ints_update)
  then have "load_data (st\<lparr>data_file := Some d, saves := Suc (saves st)\<rparr>) = d"
    by (rule load_data_saved)
  moreover have "map_of d (product_id c) = Some c2"
    by (simp add: d_def c2_def c1_def update_conv')
  ultimately show ?thesis
    unfolding run by (simp add: c2_def c1_def)
qed

lemma trinket_ints: "fstring (product_ints trinket) = Inr ()"
  by (simp add: fstring_eq product_ints_def trinket_def small_lt_str_limit)

lemma load_data_trinket_shop: "load_data trinket_shop = [(''k1'', trinket)]"
  using trinket_ints by (simp add: load_data_def trinket_shop_def json_ints_def)

text \<open>
  C7, as amended. A candidate whose identifier is not yet in the store and whose three
  quantities have at most 4300 digits is stored by \<open>add_product\<close>; when its priority is
  high and its \<open>min_threshold\<close> is below 10, the stored \<open>min_threshold\<close> is exactly 10
  (a silent correction, the call succeeds), and in every other case the stored
  \<open>min_threshold\<close> is the supplied one.
\<close>

theorem add_product_min_threshold:
  assumes "map_of (load_data st) (product_id c) = None"
    and "\<bar>stock_quantity c\<bar> < str_limit" and "\<bar>min_threshold c\<bar> < str_limit"
    and "\<bar>restock_quantity c\<bar> < str_limit"
  shows "\<exists>p'. fst (add_product c st) =
                Inr \<lparr>pr_message = ''Product added successfully'', pr_product = p'\<rparr>
           \<and> map_of (load_data (snd (add_product c st))) (product_id c) = Some p'
           \<and> min_threshold p' =
               (if priority c = high \<and> min_threshold c < 10 then 10 else min_threshold c)"
  using add_product_stored [OF assms] by blast

theorem add_product_min_threshold_witness:
  "map_of (load_data shop) (product_id gadget) = None
   \<and> \<bar>stock_quantity gadget\<bar> < str_limit \<and> \<bar>min_threshold gadget\<bar> < str_limit
   \<and> \<bar>restock_quantity gadget\<bar> < str_limit
   \<and> priority gadget = high \<and> min_threshold gadget = 5
   \<and> (\<exists>p'. map_of (load_data (snd (add_product gadget shop))) ''g1'' = Some p'
          \<and> min_threshold p' = 10)"
proof -
  have h: "map_of (load_data shop) (product_id gadget) = None"
    by (simp add: load_data_shop gadget_def)
  have b: "\<bar>stock_quantity gadget\<bar> < str_limit" "\<bar>min_threshold gadget\<bar> < str_limit"
    "\<bar>restock_quantity gadget\<bar> < str_limit"
    by (simp_all add: gadget_def small_lt_str_limit)
  show ?thesis
    using h b add_product_min_threshold [OF h b] by (auto simp: gadget_def)
qed

text \<open>
  A candidate whose identifier is already in the store is rejected before the rule is
  reached: nothing is stored, and the product under that identifier keeps its threshold.
  A new candidate with a quantity of 4301 digits is not stored either: writing the file
  raises ValueError.
\<close>

theorem add_product_min_threshold_counterexample:
  "priority (gadget\<lparr>product_id := ''k1''\<rparr>) = high
   \<and> min_threshold (gadget\<lparr>product_id := ''k1''\<rparr>) < 10
   \<and> add_product (gadget\<lparr>product_id := ''k1''\<rparr>) trinket_shop =
       (Inl (HTTPException 400 Product_already_exists), trinket_shop)
   \<and> map_of (load_data trinket_shop) ''k1'' = Some trinket
   \<and> min_threshold trinket = 5
   \<and> map_of (load_data shop) (product_id (gadget\<lparr>stock_quantity := str_limit\<rparr>)) = None
   \<and> fst (add_product (gadget\<lparr>stock_quantity := str_limit\<rparr>) shop) = Inl ValueError"
proof -
  have 1: "add_product (gadget\<lparr>product_id := ''k1''\<rparr>) trinket_shop =
             (Inl (HTTPException 400 Product_already_exists), trinket_shop)"
    by (simp add: add_product_def load_data_trinket_shop gadget_def)
  have h: "map_of (load_data shop) (product_id (gadget\<lparr>stock_quantity := str_limit\<rparr>)) = None"
    by (simp add: load_data_shop gadget_def)
  have "\<not> fstring (product_ints (gadget\<lparr>stock_quantity := str_limit, min_threshold := 10,
               category := Some high_volume\<rparr>)) = Inr ()"
    using str_limit_pos by (simp add: product_ints_iff)
  then have 2: "fst (add_product (gadget\<lparr>stock_quantity := str_limit\<rparr>) shop) = Inl ValueError"
    unfolding add_product_new [OF h] by (simp add: Let_def gadget_def)
  show ?thesis
    using 1 2 h by (simp add: load_data_trinket_shop) (simp add: gadget_def trinket_def)
qed

text \<open>
  C8, as amended. A candidate whose identifier is not yet in the store and whose three
  quantities have at most 4300 digits is stored with category \<open>high_volume\<close> when its
  \<open>restock_quantity\<close> exceeds 50 and \<open>low_volume\<close> otherwise, whatever category it came
  with; 60 gives \<open>high_volume\<close> and 40 gives \<open>low_volume\<close>.
\<close>

theorem add_product_category:
  assumes "map_of (load_data st) (product_id c) = None"
    and "\<bar>stock_quantity c\<bar> < str_limit" and "\<bar>min_threshold c\<bar> < str_limit"
    and "\<bar>restock_quantity c\<bar> < str_limit"
  shows "\<exists>p'. fst (add_product c st) =
                Inr \<lparr>pr_message = ''Product added successfully'', pr_product = p'\<rparr>
           \<and> map_of (load_data (snd (add_product c st))) (product_id c) = Some p'
           \<and> category p' =
               Some (if restock_quantity c > 50 then high_volume else low_volume)"
  using add_product_stored [OF assms] by blast

theorem add_product_category_witness:
  "map_of (load_data shop) (product_id gadget) = None
   \<and> restock_quantity gadget = 60
   \<and> (\<exists>p'. map_of (load_data (snd (add_product gadget shop))) ''g1'' = Some p'
          \<and> category p' = Some high_volume)
   \<and> (\<exists>p'. map_of (load_data (snd (add_product
                (gadget\<lparr>restock_quantity := 40, category := Some high_volume\<rparr>) shop))) ''g1''
              = Some p'
          \<and> category p' = Some low_volume)"
proof -
  have h: "map_of (load_data shop) (product_id gadget) = None"
    by (simp add: load_data_shop gadget_def)
  have b: "\<bar>stock_quantity gadget\<bar> < str_limit" "\<bar>min_threshold gadget\<bar> < str_limit"
    "\<bar>restock_quantity gadget\<bar> < str_limit"
    by (simp_all add: gadget_def small_lt_str_limit)
  have h': "map_of (load_data shop)
              (product_id (gadget\<lparr>restock_quantity := 40, category := Some high_volume\<rparr>)) = None"
    by (simp add: load_data_shop gadget_def)
  have b': "\<bar>stock_quantity (gadget\<lparr>restock_quantity := 40, category := Some high_volume\<rparr>)\<bar>
              < str_limit"
    "\<bar>min_threshold (gadget\<lparr>restock_quantity := 40, category := Some high_volume\<rparr>)\<bar>
              < str_limit"
    "\<bar>restock_quantity (gadget\<lparr>restock_quantity := 40, category := Some high_volume\<rparr>)\<bar>
              < str_limit"
    by (simp_all add: gadget_def small_lt_str_limit)
  show ?thesis
    using h add_product_category [OF h b] add_product_category [OF h' b']
    by (auto simp: gadget_def)
qed

text \<open>
  A candidate whose identifier is already in the store is rejected: no category is
  assigned or stored, whatever its \<open>restock_quantity\<close>. A new candidate with a quantity
  of 4301 digits is not stored either.
\<close>

theorem add_product_category_counterexample:
  "restock_quantity (gadget\<lparr>product_id := ''k1''\<rparr>) > 50
   \<and> add_product (gadget\<lparr>product_id := ''k1''\<rparr>) trinket_shop =
       (Inl (HTTPException 400 Product_already_exists), trinket_shop)
   \<and> map_of (load_data trinket_shop) ''k1'' = Some trinket
   \<and> category trinket = Some low_volume
   \<and> map_of (load_data shop) (product_id (gadget\<lparr>restock_quantity := str_limit\<rparr>)) = None
   \<and> fst (add_product (gadget\<lparr>restock_quantity := str_limit\<rparr>) shop) = Inl ValueError"
proof -
  have 1: "add_product (gadget\<lparr>product_id := ''k1''\<rparr>) trinket_shop =
             (Inl (HTTPException 400 Product_already_exists), trinket_shop)"
    by (simp add: add_product_def load_data_trinket_shop gadget_def)
  have h: "map_of (load_data shop) (product_id (gadget\<lparr>restock_quantity := str_limit\<rparr>)) = None"
    by (simp add: load_data_shop gadget_def)
  have c: "(50 < str_limit) = True" by (simp add: small_lt_str_limit)
  have "\<not> fstring (product_ints (gadget\<lparr>restock_quantity := str_limit, min_threshold := 10,
               category := Some high_volume\<rparr>)) = Inr ()"
    using str_limit_pos by (simp add: product_ints_iff)
  then have 2: "fst (add_product (gadget\<lparr>restock_quantity := str_limit\<rparr>) shop) = Inl ValueError"
    unfolding add_product_new [OF h] by (simp add: Let_def gadget_def c)
  show ?thesis
    using 1 2 h by (simp add: load_data_trinket_shop) (simp add: gadget_def trinket_def)
qed

section \<open>Purchase and manual restock\<close>

lemma restock_if_needed_eq:
  assumes "should_restock p = Inr t" and "actual_restock p = Inr a"
    and "t \<longrightarrow> \<bar>stock_quantity p\<bar> < str_limit \<and> \<bar>stock_quantity p + a\<bar> < str_limit
                \<and> \<bar>a\<bar> < str_limit"
  shows "restock_if_needed p =
           Inr (p\<lparr>stock_quantity := stock_quantity p + (if t then a else 0)\<rparr>, t)"
  using assms by (cases t) (simp_all add: restock_if_needed_def Let_def fstring_eq)

lemma float_limit_lt_pow_1024: "float_limit < 2 ^ 1024"
  by (simp add: float_limit_def)

lemma save_data_update:
  assumes "fstring (product_ints p') = Inr ()"
  shows "save_data (AList.update pid p' (load_data st)) st =
           (Inr (), st\<lparr>data_file := Some (AList.update pid p' (load_data st)),
                       saves := Suc (saves st)\<rparr>)"
proof -
  have "fstring (json_ints (AList.update pid p' (load_data st))) = Inr ()"
    using load_data_ints assms by (rule json_ints_update)
  then show ?thesis by (rule save_data_ok)
qed

text \<open>
  C4, as amended. For every stored product with \<open>min_threshold < 2 ^ 1024 - 2 ^ 970\<close> and
  \<open>0 \<le> restock_quantity < 2 ^ 1021\<close>, and every quantity with
  \<open>0 < quantity \<le> stock_quantity\<close>, \<open>purchase\<close> succeeds: it decrements the stock, runs
  \<open>restock_if_needed\<close> on the decremented product, saves, and answers the final stock and
  the flag \<open>should_restock\<close> gave. The amount added when the flag is set is the one the
  code computes in binary64 (\<open>actual_restock\<close>); it is \<open>compute_restock_amount\<close> within the
  bounds of C2. A purchase that takes the stock to 0 sets the flag and leaves 0 plus that
  amount.
\<close>

theorem purchase_product_succeeds:
  assumes "map_of (load_data st) pid = Some p"
    and "0 < q" and "q \<le> stock_quantity p"
    and "min_threshold p < float_limit"
    and "0 \<le> restock_quantity p" and "restock_quantity p < 2 ^ 1021"
  shows "\<exists>t a. should_restock (p\<lparr>stock_quantity := stock_quantity p - q\<rparr>) = Inr t
           \<and> actual_restock p = Inr a \<and> 0 \<le> a
           \<and> purchase_product pid \<lparr>quantity = q\<rparr> st =
               (Inr \<lparr>pu_message = ''Purchase successful'',
                     remaining_stock = stock_quantity p - q + (if t then a else 0),
                     restock_triggered = t\<rparr>,
                st\<lparr>data_file :=
                      Some (AList.update pid
                        (p\<lparr>stock_quantity := stock_quantity p - q + (if t then a else 0)\<rparr>)
                        (load_data st)),
                    saves := Suc (saves st)\<rparr>)
           \<and> save_data
                 (AList.update pid
                    (p\<lparr>stock_quantity := stock_quantity p - q + (if t then a else 0)\<rparr>)
                    (load_data st)) st =
               (Inr (),
                st\<lparr>data_file :=
                      Some (AList.update pid
                        (p\<lparr>stock_quantity := stock_quantity p - q + (if t then a else 0)\<rparr>)
                        (load_data st)),
                    saves := Suc (saves st)\<rparr>)
           \<and> (q = stock_quantity p \<longrightarrow> t)
           \<and> ((priority p = high \<longrightarrow> restock_quantity p < 3752999689475414)
                \<and> (priority p \<noteq> high \<and> category p = Some high_volume \<longrightarrow>
                     restock_quantity p < 511772684928469)
                \<longrightarrow> a = compute_restock_amount (restock_quantity p) (priority p) (category p))"
proof -
  define p1 where "p1 = p\<lparr>stock_quantity := stock_quantity p - q\<rparr>"
  have st: "\<bar>stock_quantity p\<bar> < str_limit" "\<bar>min_threshold p\<bar> < str_limit"
    "\<bar>restock_quantity p\<bar> < str_limit"
    using stored_ints [OF assms(1)] by simp_all
  have s1: "0 \<le> stock_quantity p1" "stock_quantity p1 < stock_quantity p"
    "min_threshold p1 < float_limit"
    using assms(2,3,4) by (simp_all add: p1_def)
  then obtain t where t: "should_restock p1 = Inr t"
    using should_restock_total by blast
  obtain a where a: "actual_restock p = Inr a" "0 \<le> a"
    using actual_restock_total [OF assms(5,6)] by blast
  have alt: "a < 2 ^ 1024" using assms(5,6) a(1) by (rule actual_restock_lt)
  have a1: "actual_restock p1 = Inr a" using a(1) by (simp add: p1_def)
  define final where "final = stock_quantity p1 + (if t then a else 0)"
  have fin: "0 \<le> final \<and> final < str_limit"
  proof (cases t)
    case False
    then show ?thesis using s1 st(1) by (simp add: final_def)
  next
    case True
    have "stock_quantity p1 < 2 ^ 1024"
    proof (cases "stock_quantity p1 = 0")
      case True
      then show ?thesis by simp
    next
      case False
      with t \<open>t\<close> have "stock_quantity p1 < min_threshold p1"
        by (intro should_restock_true_below) simp_all
      with s1(3) float_limit_lt_pow_1024 show ?thesis by simp
    qed
    with alt have "stock_quantity p1 + a < 2 ^ 1025" by simp
    then have "stock_quantity p1 + a < str_limit" by (rule small_lt_str_limit)
    with True s1(1) a(2) show ?thesis by (simp add: final_def)
  qed
  have albl: "\<bar>a\<bar> < str_limit"
    using a(2) alt small_lt_str_limit [of a] by simp
  have s1b: "\<bar>stock_quantity p1\<bar> < str_limit" using s1(1,2) st(1) by simp
  have hyp: "t \<longrightarrow> \<bar>stock_quantity p1\<bar> < str_limit
                \<and> \<bar>stock_quantity p1 + a\<bar> < str_limit \<and> \<bar>a\<bar> < str_limit"
    using fin albl s1b by (auto simp: final_def)
  have "restock_if_needed p1 =
          Inr (p1\<lparr>stock_quantity := stock_quantity p1 + (if t then a else 0)\<rparr>, t)"
    using t a1 hyp by (rule restock_if_needed_eq)
  then have r: "restock_if_needed p1 = Inr (p\<lparr>stock_quantity := final\<rparr>, t)"
    by (simp add: p1_def final_def)
  have pr: "fstring (product_ints (p\<lparr>stock_quantity := final\<rparr>)) = Inr ()"
    using fin st by (simp add: product_ints_iff)
  have sv: "save_data (AList.update pid (p\<lparr>stock_quantity := final\<rparr>) (load_data st)) st =
              (Inr (), st\<lparr>data_file :=
                             Some (AList.update pid (p\<lparr>stock_quantity := final\<rparr>) (load_data st)),
                           saves := Suc (saves st)\<rparr>)"
    using pr by (rule save_data_update)
  have lg: "log_operation [q, stock_quantity p, final] = Inr ()"
    using assms(2,3) st(1) fin by (simp add: log_operation_eq)
  have run: "purchase_product pid \<lparr>quantity = q\<rparr> st =
               (Inr \<lparr>pu_message = ''Purchase successful'',
                     remaining_stock = final, restock_triggered = t\<rparr>,
                st\<lparr>data_file :=
                      Some (AList.update pid (p\<lparr>stock_quantity := final\<rparr>) (load_data st)),
                    saves := Suc (saves st)\<rparr>)"
    using assms(1,3) r sv lg by (simp add: purchase_product_def Let_def p1_def)
  have z: "q = stock_quantity p \<longrightarrow> t"
  proof
    assume "q = stock_quantity p"
    then have "stock_quantity p1 = 0" by (simp add: p1_def)
    then have "should_restock p1 = Inr True" by (rule should_restock_zero)
    with t show t by simp
  qed
  have c: "(priority p = high \<longrightarrow> restock_quantity p < 3752999689475414)
           \<and> (priority p \<noteq> high \<and> category p = Some high_volume \<longrightarrow>
                restock_quantity p < 511772684928469)
           \<longrightarrow> a = compute_restock_amount (restock_quantity p) (priority p) (category p)"
    using actual_restock_compute [OF assms(5)] a(1) by auto
  have f: "final = stock_quantity p - q + (if t then a else 0)"
    by (simp add: final_def p1_def)
  from t a run sv z c show ?thesis unfolding p1_def f by blast
qed

theorem purchase_product_succeeds_witness:
  "map_of (load_data shop) ''w1'' = Some widget
   \<and> (0::int) < 5 \<and> 5 \<le> stock_quantity widget
   \<and> min_threshold widget < float_limit
   \<and> 0 \<le> restock_quantity widget \<and> restock_quantity widget < 2 ^ 1021
   \<and> purchase_product ''w1'' \<lparr>quantity = 5\<rparr> shop =
       (Inr \<lparr>pu_message = ''Purchase successful'', remaining_stock = 20,
             restock_triggered = True\<rparr>,
        \<lparr>data_file = Some [(''w1'', widget\<lparr>stock_quantity := 20\<rparr>)], saves = 2\<rparr>)"
proof -
  have h1: "map_of (load_data shop) ''w1'' = Some widget"
    by (simp add: load_data_shop)
  have h2: "(0::int) < 5" by simp
  have h3: "5 \<le> stock_quantity widget" by (simp add: widget_def)
  have h4: "min_threshold widget < float_limit" by (simp add: widget_def float_limit_def)
  have h5: "0 \<le> restock_quantity widget" by (simp add: widget_def)
  have h6: "restock_quantity widget < 2 ^ 1021" by (simp add: widget_def)
  have a: "actual_restock widget = Inr 20" by (simp add: widget_def actual_restock_def)
  from purchase_product_succeeds [OF h1 h2 h3 h4 h5 h6]
  obtain t b where "actual_restock widget = Inr b"
    and run: "purchase_product ''w1'' \<lparr>quantity = 5\<rparr> shop =
               (Inr \<lparr>pu_message = ''Purchase successful'',
                     remaining_stock = stock_quantity widget - 5 + (if t then b else 0),
                     restock_triggered = t\<rparr>,
                shop\<lparr>data_file :=
                      Some (AList.update ''w1''
                        (widget\<lparr>stock_quantity := stock_quantity widget - 5 + (if t then b else 0)\<rparr>)
                        (load_data shop)),
                    saves := Suc (saves shop)\<rparr>)"
    and z: "5 = stock_quantity widget \<longrightarrow> t"
    by blast
  with a have b: "b = 20" by simp
  have t: t using z by (simp add: widget_def)
  have s: "stock_quantity widget - 5 + 20 = 20" by (simp add: widget_def)
  have sh: "shop\<lparr>data_file := Some [(''w1'', widget\<lparr>stock_quantity := 20\<rparr>)],
                 saves := Suc (saves shop)\<rparr>
            = \<lparr>data_file = Some [(''w1'', widget\<lparr>stock_quantity := 20\<rparr>)], saves = 2\<rparr>"
    by (simp add: shop_def)
  show ?thesis
    using h1 h3 h4 h5 h6 run by (simp add: b t s load_data_shop sh)
qed

lemma big_restock_ints: "fstring (product_ints big_restock) = Inr ()"
  by (simp add: fstring_eq product_ints_def big_restock_def small_lt_str_limit)

lemma load_data_big_shop: "load_data big_shop = [(''b1'', big_restock)]"
  using big_restock_ints by (simp add: load_data_def big_shop_def json_ints_def)

lemma actual_restock_big: "actual_restock big_restock = Inl OverflowError"
proof -
  have "float_of_int (2 ^ 1024) = Inl OverflowError"
    by (rule float_of_int_overflow) simp
  then show ?thesis
    by (simp add: big_restock_def actual_restock_def int_mul_float_def)
qed

theorem purchase_product_overflow_counterexample:
  "map_of (load_data big_shop) ''b1'' = Some big_restock
   \<and> (0::int) < 1 \<and> 1 \<le> stock_quantity big_restock
   \<and> purchase_product ''b1'' \<lparr>quantity = 1\<rparr> big_shop = (Inl OverflowError, big_shop)"
proof -
  have "actual_restock (big_restock\<lparr>stock_quantity := 0\<rparr>) = Inl OverflowError"
    using actual_restock_big by simp
  then have "restock_if_needed (big_restock\<lparr>stock_quantity := 0\<rparr>) = Inl OverflowError"
    by (simp add: restock_if_needed_def should_restock_zero)
  moreover have "stock_quantity big_restock - 1 = 0" by (simp add: big_restock_def)
  moreover have "\<not> stock_quantity big_restock < 1" by (simp add: big_restock_def)
  ultimately show ?thesis
    by (simp add: purchase_product_def load_data_big_shop Let_def)
qed

lemma manual_restock_found:
  assumes "map_of (load_data st) pid = Some p"
  shows "manual_restock pid st =
           (case actual_restock p of
              Inl err \<Rightarrow> (Inl err, st)
            | Inr a \<Rightarrow>
                (if \<bar>stock_quantity p + a\<bar> < str_limit
                 then (if \<bar>a\<bar> < str_limit
                       then (Inr \<lparr>mr_message = ''Manual restock completed'',
                                   mr_product_id = pid,
                                   stock_before = stock_quantity p,
                                   stock_after = stock_quantity p + a,
                                   mr_restock_quantity = a\<rparr>,
                             st\<lparr>data_file :=
                                  Some (AList.update pid
                                    (p\<lparr>stock_quantity := stock_quantity p + a\<rparr>)
                                    (load_data st)),
                                saves := Suc (saves st)\<rparr>)
                       else (Inl ValueError,
                             st\<lparr>data_file :=
                                  Some (AList.update pid
                                    (p\<lparr>stock_quantity := stock_quantity p + a\<rparr>)
                                    (load_data st)),
                                saves := Suc (saves st)\<rparr>))
                 else (Inl ValueError, st\<lparr>data_file := None, saves := Suc (saves st)\<rparr>)))"
proof (cases "actual_restock p")
  case (Inl err)
  then show ?thesis using assms by (simp add: manual_restock_def Let_def)
next
  case (Inr a)
  have st: "\<bar>stock_quantity p\<bar> < str_limit" "\<bar>min_threshold p\<bar> < str_limit"
    "\<bar>restock_quantity p\<bar> < str_limit"
    using stored_ints [OF assms] by simp_all
  define p' where "p' = p\<lparr>stock_quantity := stock_quantity p + a\<rparr>"
  define d where "d = AList.update pid p' (load_data st)"
  have run: "manual_restock pid st =
               (case save_data d st of
                  (Inl err, st') \<Rightarrow> (Inl err, st')
                | (Inr u, st') \<Rightarrow>
                    (case log_operation [stock_quantity p, stock_quantity p', a] of
                       Inl err \<Rightarrow> (Inl err, st')
                     | Inr u \<Rightarrow>
                         (Inr \<lparr>mr_message = ''Manual restock completed'',
                               mr_product_id = pid,
                               stock_before = stock_quantity p,
                               stock_after = stock_quantity p',
                               mr_restock_quantity = a\<rparr>, st')))"
    unfolding d_def p'_def using assms Inr by (simp add: manual_restock_def Let_def)
  show ?thesis
  proof (cases "\<bar>stock_quantity p + a\<bar> < str_limit")
    case True
    then have "fstring (product_ints p') = Inr ()"
      using st by (simp add: product_ints_iff p'_def)
    then have "save_data d st = (Inr (), st\<lparr>data_file := Some d, saves := Suc (saves st)\<rparr>)"
      unfolding d_def by (rule save_data_update)
    then show ?thesis
      using True st(1) Inr
      by (simp add: run log_operation_eq) (simp add: d_def p'_def)
  next
    case False
    then have "\<not> fstring (product_ints p') = Inr ()"
      by (simp add: product_ints_iff p'_def)
    moreover have "map_of d pid = Some p'" by (simp add: d_def update_conv')
    then have "(pid, p') \<in> set d" by (rule map_of_SomeD)
    ultimately have "\<not> fstring (json_ints d) = Inr ()"
      using json_ints_product by blast
    then have "fstring (json_ints d) = Inl ValueError"
      using fstring_cases [of "json_ints d"] by simp
    then show ?thesis using False Inr by (simp add: run save_data_def)
  qed
qed

lemma int_mul_trunc_not_http:
  "(case int_mul_float n c of Inl err \<Rightarrow> Inl err | Inr x \<Rightarrow> int_of_float x)
     \<noteq> Inl (HTTPException k d)"
proof -
  have f: "float_of_int n \<noteq> Inl (HTTPException k d)"
    by (simp add: float_of_int_def split: pyfloat.split)
  have i: "int_of_float x \<noteq> Inl (HTTPException k d)" for x
    by (cases x) simp_all
  show ?thesis
    using f i by (auto simp: int_mul_float_def split: sum.splits)
qed

lemma actual_restock_not_http: "actual_restock p \<noteq> Inl (HTTPException k d)"
proof (cases "priority p = high")
  case True
  then show ?thesis by (simp add: actual_restock_high int_mul_trunc_not_http)
next
  case False
  then show ?thesis
    by (cases "category p = Some high_volume")
      (simp_all add: actual_restock_volume actual_restock_plain int_mul_trunc_not_http)
qed

lemma manual_restock_not_found:
  "fst (manual_restock pid st) = Inl (HTTPException 404 Product_not_found)
     \<longleftrightarrow> map_of (load_data st) pid = None"
proof (cases "map_of (load_data st) pid")
  case None
  then show ?thesis by (simp add: manual_restock_def)
next
  case (Some p)
  show ?thesis
    unfolding manual_restock_found [OF Some]
    using Some actual_restock_not_http [of p 404 Product_not_found]
    by (auto split: sum.splits)
qed

lemma full_stock_ints: "fstring (product_ints full_stock) = Inr ()"
proof -
  have "\<bar>str_limit - 1\<bar> < str_limit" using str_limit_pos by simp
  then show ?thesis
    by (simp add: fstring_eq product_ints_def full_stock_def small_lt_str_limit)
qed

lemma load_data_full_shop: "load_data full_shop = [(''f1'', full_stock)]"
  using full_stock_ints by (simp add: load_data_def full_shop_def json_ints_def)

text \<open>
  C6, as amended. \<open>manual_restock\<close> fails with the not-found error (HTTP 404) iff the
  identifier is absent. For every stored product with \<open>0 \<le> restock_quantity < 2 ^ 1021\<close>,
  whatever its stock level, its priority and what \<open>should_restock\<close> would say, the amount
  \<open>a\<close> that the code computes in binary64 (\<open>actual_restock\<close>) exists and is not negative,
  and it is \<open>compute_restock_amount\<close> within the bounds of C2. If the new stock
  \<open>stock_quantity + a\<close> has at most 4300 decimal digits, \<open>manual_restock\<close> adds \<open>a\<close> to
  \<open>stock_quantity\<close>, writes the file, and answers the stock before, the stock after and
  the amount added. Otherwise writing the file raises \<open>ValueError\<close> after the file has
  been truncated: nothing is persisted and the file no longer holds any product.
\<close>

theorem manual_restock_adds:
  "(fst (manual_restock pid st) = Inl (HTTPException 404 Product_not_found)
      \<longleftrightarrow> map_of (load_data st) pid = None)
   \<and> (\<forall>p. map_of (load_data st) pid = Some p
            \<and> 0 \<le> restock_quantity p \<and> restock_quantity p < 2 ^ 1021 \<longrightarrow>
          (\<exists>a. actual_restock p = Inr a \<and> 0 \<le> a
             \<and> (if stock_quantity p + a < str_limit
                 then manual_restock pid st =
                        (Inr \<lparr>mr_message = ''Manual restock completed'', mr_product_id = pid,
                              stock_before = stock_quantity p,
                              stock_after = stock_quantity p + a,
                              mr_restock_quantity = a\<rparr>,
                         st\<lparr>data_file :=
                              Some (AList.update pid
                                (p\<lparr>stock_quantity := stock_quantity p + a\<rparr>) (load_data st)),
                            saves := Suc (saves st)\<rparr>)
                      \<and> save_data
                          (AList.update pid (p\<lparr>stock_quantity := stock_quantity p + a\<rparr>)
                             (load_data st)) st =
                        (Inr (),
                         st\<lparr>data_file :=
                              Some (AList.update pid
                                (p\<lparr>stock_quantity := stock_quantity p + a\<rparr>) (load_data st)),
                            saves := Suc (saves st)\<rparr>)
                      \<and> map_of (load_data (snd (manual_restock pid st))) pid =
                          Some (p\<lparr>stock_quantity := stock_quantity p + a\<rparr>)
                 else manual_restock pid st =
                        (Inl ValueError, st\<lparr>data_file := None, saves := Suc (saves st)\<rparr>)
                      \<and> load_data (snd (manual_restock pid st)) = [])
             \<and> ((priority p = high \<longrightarrow> restock_quantity p < 3752999689475414)
                  \<and> (priority p \<noteq> high \<and> category p = Some high_volume \<longrightarrow>
                       restock_quantity p < 511772684928469)
                  \<longrightarrow> a = compute_restock_amount (restock_quantity p) (priority p)
                           (category p))))"
proof (intro conjI allI impI)
  show "fst (manual_restock pid st) = Inl (HTTPException 404 Product_not_found)
          \<longleftrightarrow> map_of (load_data st) pid = None"
    by (rule manual_restock_not_found)
next
  fix p
  assume h: "map_of (load_data st) pid = Some p
               \<and> 0 \<le> restock_quantity p \<and> restock_quantity p < 2 ^ 1021"
  then obtain a where a: "actual_restock p = Inr a" "0 \<le> a"
    using actual_restock_total by blast
  have "a < 2 ^ 1024" using h a(1) by (intro actual_restock_lt [of p a]) simp_all
  then have al: "\<bar>a\<bar> < str_limit" using a(2) by (simp add: small_lt_str_limit)
  have sp: "\<bar>stock_quantity p\<bar> < str_limit" using stored_ints h by blast
  have ab: "\<bar>stock_quantity p + a\<bar> < str_limit \<longleftrightarrow> stock_quantity p + a < str_limit"
    using sp a(2) by auto
  define p' where "p' = p\<lparr>stock_quantity := stock_quantity p + a\<rparr>"
  define d where "d = AList.update pid p' (load_data st)"
  have mf: "manual_restock pid st =
              (if stock_quantity p + a < str_limit
               then (Inr \<lparr>mr_message = ''Manual restock completed'', mr_product_id = pid,
                           stock_before = stock_quantity p,
                           stock_after = stock_quantity p + a,
                           mr_restock_quantity = a\<rparr>,
                     st\<lparr>data_file := Some d, saves := Suc (saves st)\<rparr>)
               else (Inl ValueError, st\<lparr>data_file := None, saves := Suc (saves st)\<rparr>))"
    using h a(1) al ab by (simp add: manual_restock_found d_def p'_def)
  have br: "if stock_quantity p + a < str_limit
            then manual_restock pid st =
                   (Inr \<lparr>mr_message = ''Manual restock completed'', mr_product_id = pid,
                         stock_before = stock_quantity p,
                         stock_after = stock_quantity p + a,
                         mr_restock_quantity = a\<rparr>,
                    st\<lparr>data_file := Some d, saves := Suc (saves st)\<rparr>)
                 \<and> save_data d st =
                   (Inr (), st\<lparr>data_file := Some d, saves := Suc (saves st)\<rparr>)
                 \<and> map_of (load_data (snd (manual_restock pid st))) pid = Some p'
            else manual_restock pid st =
                   (Inl ValueError, st\<lparr>data_file := None, saves := Suc (saves st)\<rparr>)
                 \<and> load_data (snd (manual_restock pid st)) = []"
  proof (cases "stock_quantity p + a < str_limit")
    case True
    have "fstring (product_ints p') = Inr ()"
      using True ab stored_ints [of st pid p] h by (simp add: product_ints_iff p'_def)
    then have sv: "save_data d st = (Inr (), st\<lparr>data_file := Some d, saves := Suc (saves st)\<rparr>)"
      unfolding d_def by (rule save_data_update)
    then have "load_data (st\<lparr>data_file := Some d, saves := Suc (saves st)\<rparr>) = d"
      by (simp add: save_data_def load_data_def split: sum.splits)
    then have "map_of (load_data (snd (manual_restock pid st))) pid = Some p'"
      using True by (simp add: mf) (simp add: d_def update_conv')
    then show ?thesis using True sv mf by simp
  next
    case False
    then show ?thesis by (simp add: mf load_data_def)
  qed
  have c: "(priority p = high \<longrightarrow> restock_quantity p < 3752999689475414)
           \<and> (priority p \<noteq> high \<and> category p = Some high_volume \<longrightarrow>
                restock_quantity p < 511772684928469)
           \<longrightarrow> a = compute_restock_amount (restock_quantity p) (priority p) (category p)"
    using actual_restock_compute [of p] h a(1) by auto
  from a br c
  show "\<exists>a. actual_restock p = Inr a \<and> 0 \<le> a
             \<and> (if stock_quantity p + a < str_limit
                 then manual_restock pid st =
                        (Inr \<lparr>mr_message = ''Manual restock completed'', mr_product_id = pid,
                              stock_before = stock_quantity p,
                              stock_after = stock_quantity p + a,
                              mr_restock_quantity = a\<rparr>,
                         st\<lparr>data_file :=
                              Some (AList.update pid
                                (p\<lparr>stock_quantity := stock_quantity p + a\<rparr>) (load_data st)),
                            saves := Suc (saves st)\<rparr>)
                      \<and> save_data
                          (AList.update pid (p\<lparr>stock_quantity := stock_quantity p + a\<rparr>)
                             (load_data st)) st =
                        (Inr (),
                         st\<lparr>data_file :=
                              Some (AList.update pid
                                (p\<lparr>stock_quantity := stock_quantity p + a\<rparr>) (load_data st)),
                            saves := Suc (saves st)\<rparr>)
                      \<and> map_of (load_data (snd (manual_restock pid st))) pid =
                          Some (p\<lparr>stock_quantity := stock_quantity p + a\<rparr>)
                 else manual_restock pid st =
                        (Inl ValueError, st\<lparr>data_file := None, saves := Suc (saves st)\<rparr>)
                      \<and> load_data (snd (manual_restock pid st)) = [])
             \<and> ((priority p = high \<longrightarrow> restock_quantity p < 3752999689475414)
                  \<and> (priority p \<noteq> high \<and> category p = Some high_volume \<longrightarrow>
                       restock_quantity p < 511772684928469)
                  \<longrightarrow> a = compute_restock_amount (restock_quantity p) (priority p)
                           (category p))"
    unfolding d_def p'_def by blast
qed

theorem manual_restock_adds_witness:
  "map_of (load_data shop) ''w1'' = Some widget
   \<and> 0 \<le> restock_quantity widget \<and> restock_quantity widget < 2 ^ 1021
   \<and> should_restock widget = Inr True
   \<and> manual_restock ''w1'' shop =
       (Inr \<lparr>mr_message = ''Manual restock completed'', mr_product_id = ''w1'',
             stock_before = 5, stock_after = 25, mr_restock_quantity = 20\<rparr>,
        \<lparr>data_file = Some [(''w1'', widget\<lparr>stock_quantity := 25\<rparr>)], saves = 2\<rparr>)
   \<and> fst (manual_restock ''zz'' shop) = Inl (HTTPException 404 Product_not_found)"
proof -
  have h: "map_of (load_data shop) ''w1'' = Some widget
             \<and> 0 \<le> restock_quantity widget \<and> restock_quantity widget < 2 ^ 1021"
    by (simp add: load_data_shop widget_def)
  have n: "map_of (load_data shop) ''zz'' = None" by (simp add: load_data_shop)
  have a: "actual_restock widget = Inr 20" by (simp add: widget_def actual_restock_def)
  have sr: "should_restock widget = Inr True"
    using should_restock_cases [of widget]
    by (simp add: widget_def float_limit_def small_lt_str_limit)
  have s: "stock_quantity widget = 5" by (simp add: widget_def)
  have lt: "stock_quantity widget + 20 < str_limit" by (simp add: s small_lt_str_limit)
  from manual_restock_adds [of "''w1''" shop] h
  obtain b where b0: "actual_restock widget = Inr b"
    and br: "if stock_quantity widget + b < str_limit
             then manual_restock ''w1'' shop =
                    (Inr \<lparr>mr_message = ''Manual restock completed'', mr_product_id = ''w1'',
                          stock_before = stock_quantity widget,
                          stock_after = stock_quantity widget + b, mr_restock_quantity = b\<rparr>,
                     shop\<lparr>data_file :=
                            Some (AList.update ''w1''
                              (widget\<lparr>stock_quantity := stock_quantity widget + b\<rparr>)
                              (load_data shop)),
                          saves := Suc (saves shop)\<rparr>)
                  \<and> save_data
                      (AList.update ''w1''
                         (widget\<lparr>stock_quantity := stock_quantity widget + b\<rparr>)
                         (load_data shop)) shop =
                    (Inr (),
                     shop\<lparr>data_file :=
                            Some (AList.update ''w1''
                              (widget\<lparr>stock_quantity := stock_quantity widget + b\<rparr>)
                              (load_data shop)),
                          saves := Suc (saves shop)\<rparr>)
                  \<and> map_of (load_data (snd (manual_restock ''w1'' shop))) ''w1'' =
                      Some (widget\<lparr>stock_quantity := stock_quantity widget + b\<rparr>)
             else manual_restock ''w1'' shop =
                    (Inl ValueError, shop\<lparr>data_file := None, saves := Suc (saves shop)\<rparr>)
                  \<and> load_data (snd (manual_restock ''w1'' shop)) = []"
    by blast
  from a b0 have b: "b = 20" by simp
  have run: "manual_restock ''w1'' shop =
                    (Inr \<lparr>mr_message = ''Manual restock completed'', mr_product_id = ''w1'',
                          stock_before = stock_quantity widget,
                          stock_after = stock_quantity widget + 20, mr_restock_quantity = 20\<rparr>,
                     shop\<lparr>data_file :=
                            Some (AList.update ''w1''
                              (widget\<lparr>stock_quantity := stock_quantity widget + 20\<rparr>)
                              (load_data shop)),
                          saves := Suc (saves shop)\<rparr>)"
    using br lt unfolding b by simp
  have sh: "shop\<lparr>data_file := Some [(''w1'', widget\<lparr>stock_quantity := 25\<rparr>)],
                 saves := Suc (saves shop)\<rparr>
            = \<lparr>data_file = Some [(''w1'', widget\<lparr>stock_quantity := 25\<rparr>)], saves = 2\<rparr>"
    by (simp add: shop_def)
  have nf: "fst (manual_restock ''zz'' shop) = Inl (HTTPException 404 Product_not_found)"
    using manual_restock_adds [of "''zz''" shop] n by blast
  show ?thesis
    using h sr nf by (simp add: run s load_data_shop sh)
qed

theorem manual_restock_overflow_counterexample:
  "map_of (load_data big_shop) ''b1'' = Some big_restock
   \<and> manual_restock ''b1'' big_shop = (Inl OverflowError, big_shop)
   \<and> map_of (load_data full_shop) ''f1'' = Some full_stock
   \<and> actual_restock full_stock = Inr 20
   \<and> manual_restock ''f1'' full_shop = (Inl ValueError, \<lparr>data_file = None, saves = 2\<rparr>)
   \<and> load_data \<lparr>data_file = None, saves = 2\<rparr> = []"
proof -
  have b: "manual_restock ''b1'' big_shop = (Inl OverflowError, big_shop)"
    using actual_restock_big by (simp add: manual_restock_def load_data_big_shop Let_def)
  have a: "actual_restock full_stock = Inr 20"
    by (simp add: full_stock_def actual_restock_def)
  have m: "map_of (load_data full_shop) ''f1'' = Some full_stock"
    by (simp add: load_data_full_shop)
  have s: "stock_quantity full_stock + 20 = str_limit + 19" by (simp add: full_stock_def)
  have n: "\<not> \<bar>str_limit + 19\<bar> < str_limit" using str_limit_pos by simp
  have f: "manual_restock ''f1'' full_shop = (Inl ValueError, \<lparr>data_file = None, saves = 2\<rparr>)"
    unfolding manual_restock_found [OF m] using n by (simp add: a s) (simp add: full_shop_def)
  have e: "load_data \<lparr>data_file = None, saves = 2\<rparr> = []" by (simp add: load_data_def)
  have mb: "map_of (load_data big_shop) ''b1'' = Some big_restock"
    by (simp add: load_data_big_shop)
  show ?thesis
    using mb b a m f e by blast
qed

section \<open>The invariant of the store\<close>

lemma list_all_update:
  assumes "list_all P al" and "P (k, v)"
  shows "list_all P (AList.update k v al)"
  using assms by (induction al) auto

lemma list_all_map_of:
  assumes "list_all (\<lambda>(k, v). Q v) al" and "map_of al k = Some v"
  shows "Q v"
  using assms by (induction al) (auto split: if_splits)

lemma store_invariant_no_file:
  "store_invariant (st\<lparr>data_file := None, saves := n\<rparr>)"
  by (simp add: store_invariant_def load_data_def)

lemma store_invariant_file:
  assumes "list_all (\<lambda>(pid, p). nonneg_quantities p) d"
  shows "store_invariant (st\<lparr>data_file := Some d, saves := n\<rparr>)"
  using assms by (simp add: store_invariant_def load_data_def split: sum.split)

lemma store_invariant_save:
  assumes "store_invariant st" and "nonneg_quantities p"
  shows "store_invariant (snd (save_data (AList.update k p (load_data st)) st))"
proof -
  have "list_all (\<lambda>(pid, p). nonneg_quantities p) (AList.update k p (load_data st))"
    using assms by (simp add: store_invariant_def list_all_update)
  then show ?thesis
    by (simp add: save_data_def store_invariant_no_file store_invariant_file split: sum.split)
qed

lemma store_invariant_lookup:
  assumes "store_invariant st" and "map_of (load_data st) k = Some p"
  shows "nonneg_quantities p"
  using assms unfolding store_invariant_def by (rule list_all_map_of)

lemma validate_Product_nonneg:
  assumes "validate_Product p = Inr p'"
  shows "p' = p \<and> nonneg_quantities p"
  using assms
  by (auto simp: validate_Product_def validate_positive_numbers_def nonneg_quantities_def
           split: if_splits)

text \<open>
  What the three writing handlers do after \<open>save_data\<close>: whether the save or the log entry
  that follows raises or not, the store left is the one \<open>save_data\<close> left.
\<close>

lemma snd_after_save:
  "snd (case sv of
          (Inl err, st') \<Rightarrow> (Inl err, st')
        | (Inr u, st') \<Rightarrow>
            (case lg of Inl err \<Rightarrow> (Inl err, st') | Inr u \<Rightarrow> (Inr x, st')))
     = snd sv"
  by (cases sv) (auto split: sum.splits)

lemma add_product_invariant:
  assumes "store_invariant st" and "nonneg_quantities p"
  shows "store_invariant (snd (add_product p st))"
proof (cases "map_of (load_data st) (product_id p)")
  case (Some q)
  then show ?thesis using assms(1) by (simp add: add_product_def)
next
  case None
  define c1 where "c1 = (if priority p = high \<and> min_threshold p < 10
                         then p\<lparr>min_threshold := 10\<rparr> else p)"
  define c2 where "c2 = c1\<lparr>category :=
                       Some (if restock_quantity c1 > 50 then high_volume else low_volume)\<rparr>"
  have "nonneg_quantities c2"
    using assms(2) by (simp add: c2_def c1_def nonneg_quantities_def)
  then have "list_all (\<lambda>(pid, p). nonneg_quantities p)
               (AList.update (product_id c2) c2 (load_data st))"
    using assms(1) by (simp add: store_invariant_def list_all_update)
  then have "store_invariant
               (st\<lparr>data_file := Some (AList.update (product_id c2) c2 (load_data st)),
                   saves := Suc (saves st)\<rparr>)"
    by (rule store_invariant_file)
  moreover have "store_invariant (st\<lparr>data_file := None, saves := Suc (saves st)\<rparr>)"
    by (rule store_invariant_no_file)
  ultimately show ?thesis
    unfolding add_product_new [OF None] Let_def c2_def c1_def
    by (simp split: if_splits)
qed

lemma restock_if_needed_nonneg:
  assumes "nonneg_quantities p" and "restock_if_needed p = Inr (p', t)"
  shows "nonneg_quantities p'"
proof -
  have "p' = p \<or> (\<exists>a. actual_restock p = Inr a \<and> p' = p\<lparr>stock_quantity := stock_quantity p + a\<rparr>)"
    using assms(2)
    by (auto simp: restock_if_needed_def Let_def split: sum.splits bool.splits)
  then show ?thesis
  proof
    assume "p' = p"
    with assms(1) show ?thesis by simp
  next
    assume "\<exists>a. actual_restock p = Inr a \<and> p' = p\<lparr>stock_quantity := stock_quantity p + a\<rparr>"
    then obtain a where a: "actual_restock p = Inr a"
      and p': "p' = p\<lparr>stock_quantity := stock_quantity p + a\<rparr>" by blast
    have "0 \<le> a"
      using assms(1) a by (intro actual_restock_nonneg [of p a]) (simp_all add: nonneg_quantities_def)
    with assms(1) show ?thesis by (simp add: p' nonneg_quantities_def)
  qed
qed

lemma purchase_product_invariant:
  assumes "store_invariant st"
  shows "store_invariant (snd (purchase_product pid r st))"
proof (cases "map_of (load_data st) pid")
  case None
  then show ?thesis using assms by (simp add: purchase_product_def)
next
  case (Some p)
  have np: "nonneg_quantities p" using assms Some by (rule store_invariant_lookup)
  show ?thesis
  proof (cases "stock_quantity p < quantity r")
    case True
    then show ?thesis
      using assms Some by (simp add: purchase_product_def Let_def split: sum.split)
  next
    case False
    define p1 where "p1 = p\<lparr>stock_quantity := stock_quantity p - quantity r\<rparr>"
    have n1: "nonneg_quantities p1"
      using np False by (simp add: p1_def nonneg_quantities_def)
    show ?thesis
    proof (cases "restock_if_needed p1")
      case (Inl err)
      then show ?thesis
        using assms Some False by (simp add: purchase_product_def Let_def p1_def)
    next
      case (Inr res)
      obtain p' t where res: "res = (p', t)" by (cases res)
      have "nonneg_quantities p'" using n1 Inr [unfolded res] by (rule restock_if_needed_nonneg)
      with assms have "store_invariant (snd (save_data (AList.update pid p' (load_data st)) st))"
        by (rule store_invariant_save)
      then show ?thesis
        using Some False Inr res
        by (simp add: purchase_product_def Let_def p1_def snd_after_save)
    qed
  qed
qed

lemma manual_restock_invariant:
  assumes "store_invariant st"
  shows "store_invariant (snd (manual_restock pid st))"
proof (cases "map_of (load_data st) pid")
  case None
  then show ?thesis using assms by (simp add: manual_restock_def)
next
  case (Some p)
  have np: "nonneg_quantities p" using assms Some by (rule store_invariant_lookup)
  show ?thesis
  proof (cases "actual_restock p")
    case (Inl err)
    then show ?thesis using assms Some by (simp add: manual_restock_def Let_def)
  next
    case (Inr a)
    have "0 \<le> a"
      using np Inr by (intro actual_restock_nonneg [of p a]) (simp_all add: nonneg_quantities_def)
    with np have "nonneg_quantities (p\<lparr>stock_quantity := stock_quantity p + a\<rparr>)"
      by (simp add: nonneg_quantities_def)
    with assms have "store_invariant
        (snd (save_data (AList.update pid (p\<lparr>stock_quantity := stock_quantity p + a\<rparr>)
           (load_data st)) st))"
      by (rule store_invariant_save)
    then show ?thesis
      using Inr Some by (simp add: manual_restock_def Let_def snd_after_save)
  qed
qed

lemma inventory_status_snd: "snd (inventory_status pid st) = st"
  by (simp add: inventory_status_def Let_def split: option.split sum.split)

lemma get_all_inventory_snd: "snd (get_all_inventory st) = st"
  by (simp add: get_all_inventory_def Let_def split: sum.split)

lemma serve_invariant:
  assumes "store_invariant st"
  shows "store_invariant (serve r st)"
proof (cases r)
  case (POST_products p)
  show ?thesis
  proof (cases "validate_Product p")
    case (Inl err)
    then show ?thesis using assms POST_products by simp
  next
    case (Inr p')
    then have "nonneg_quantities p'" using validate_Product_nonneg by blast
    with assms have "store_invariant (snd (add_product p' st))" by (rule add_product_invariant)
    then show ?thesis using POST_products Inr by simp
  qed
next
  case (GET_inventory_id pid)
  then show ?thesis using assms by (simp add: inventory_status_snd)
next
  case GET_inventory
  then show ?thesis using assms by (simp add: get_all_inventory_snd)
next
  case (POST_purchase pid req)
  then show ?thesis
    using assms by (cases "validate_PurchaseRequest req") (simp_all add: purchase_product_invariant)
next
  case (POST_restock pid)
  then show ?thesis using assms by (simp add: manual_restock_invariant)
qed

lemma serve_all_invariant:
  "store_invariant st \<Longrightarrow> store_invariant (serve_all rs st)"
proof (induction rs arbitrary: st)
  case Nil
  then show ?case by simp
next
  case (Cons r rs)
  from Cons.prems have "store_invariant (serve r st)" by (rule serve_invariant)
  then show ?case using Cons.IH by simp
qed

lemma serve_purchase_shop:
  "serve (POST_purchase ''w1'' \<lparr>quantity = 5\<rparr>) shop =
     \<lparr>data_file = Some [(''w1'', widget\<lparr>stock_quantity := 20\<rparr>)], saves = 2\<rparr>"
proof -
  have a: "actual_restock widget = Inr 20"
    by (simp add: widget_def actual_restock_def)
  have "fstring [0, 20, 20] = Inr ()" by (simp add: fstring_eq small_lt_str_limit)
  then have r: "restock_if_needed (widget\<lparr>stock_quantity := 0\<rparr>)
             = Inr (widget\<lparr>stock_quantity := 20\<rparr>, True)"
    using a by (simp add: restock_if_needed_def should_restock_zero)
  have s: "stock_quantity widget = 5" by (simp add: widget_def)
  have "fstring (product_ints (widget\<lparr>stock_quantity := 20\<rparr>)) = Inr ()"
    by (simp add: fstring_eq product_ints_def widget_def small_lt_str_limit)
  then have sv: "save_data [(''w1'', widget\<lparr>stock_quantity := 20\<rparr>)] shop =
                   (Inr (), \<lparr>data_file = Some [(''w1'', widget\<lparr>stock_quantity := 20\<rparr>)],
                             saves = 2\<rparr>)"
    by (simp add: save_data_def json_ints_def shop_def)
  show ?thesis
    by (simp add: validate_PurchaseRequest_def validate_quantity_def purchase_product_def
          load_data_shop Let_def s r sv split: sum.split)
qed

lemma serve_add_widget: "serve_all [POST_products widget] empty_store = shop"
proof -
  have v: "validate_Product widget = Inr widget"
    by (simp add: validate_Product_def validate_positive_numbers_def widget_def)
  have n: "map_of (load_data empty_store) (product_id widget) = None"
    by (simp add: load_data_def empty_store_def)
  have c: "widget\<lparr>category := Some low_volume\<rparr> = widget" by (simp add: widget_def)
  have w: "priority widget = medium" "restock_quantity widget = 20" "product_id widget = ''w1''"
    by (simp_all add: widget_def)
  show ?thesis
    using widget_ints
    by (simp add: v add_product_new [OF n] Let_def w c)
       (simp add: load_data_def empty_store_def shop_def)
qed

lemma serve_add_restock_full:
  "serve_all [POST_products full_stock, POST_restock ''f1''] empty_store =
     \<lparr>data_file = None, saves = 2\<rparr>"
proof -
  have "0 \<le> str_limit - 1" using str_limit_pos by simp
  then have v: "validate_Product full_stock = Inr full_stock"
    by (simp add: validate_Product_def validate_positive_numbers_def full_stock_def)
  have n: "map_of (load_data empty_store) (product_id full_stock) = None"
    by (simp add: load_data_def empty_store_def)
  have c: "full_stock\<lparr>category := Some low_volume\<rparr> = full_stock" by (simp add: full_stock_def)
  have w: "priority full_stock = medium" "restock_quantity full_stock = 20"
    "product_id full_stock = ''f1''"
    by (simp_all add: full_stock_def)
  have a: "serve (POST_products full_stock) empty_store = full_shop"
    using full_stock_ints
    by (simp add: v add_product_new [OF n] Let_def w c)
       (simp add: load_data_def empty_store_def full_shop_def)
  have m: "map_of (load_data full_shop) ''f1'' = Some full_stock"
    by (simp add: load_data_full_shop)
  have ar: "actual_restock full_stock = Inr 20"
    by (simp add: full_stock_def actual_restock_def)
  have s: "stock_quantity full_stock + 20 = str_limit + 19" by (simp add: full_stock_def)
  have nl: "\<not> \<bar>str_limit + 19\<bar> < str_limit" using str_limit_pos by simp
  have "manual_restock ''f1'' full_shop = (Inl ValueError, \<lparr>data_file = None, saves = 2\<rparr>)"
    unfolding manual_restock_found [OF m] using nl by (simp add: ar s) (simp add: full_shop_def)
  then show ?thesis using a by simp
qed

text \<open>
  C9. In every store reached from the empty one by any sequence of requests
  (\<open>add_product\<close>, \<open>purchase\<close> and \<open>manual_restock\<close> with validated bodies, and the two
  read-only routes), every stored product, that is every product that \<open>load_data\<close>
  returns, has \<open>stock_quantity \<ge> 0\<close>, \<open>min_threshold \<ge> 0\<close> and \<open>restock_quantity \<ge> 0\<close>;
  and every request preserves this invariant, whether it succeeds or fails. A request
  whose \<open>save_data\<close> raises leaves a file that \<open>load_data\<close> reads as the empty dictionary,
  of which the invariant holds.
\<close>

theorem store_invariant_reachable:
  "store_invariant (serve_all rs empty_store)
   \<and> (store_invariant st \<longrightarrow> store_invariant (serve r st))"
proof
  have "store_invariant empty_store" by (simp add: store_invariant_def empty_store_def load_data_def)
  then show "store_invariant (serve_all rs empty_store)" by (rule serve_all_invariant)
  show "store_invariant st \<longrightarrow> store_invariant (serve r st)"
    using serve_invariant by blast
qed

theorem store_invariant_reachable_witness:
  "store_invariant shop
   \<and> serve (POST_purchase ''w1'' \<lparr>quantity = 5\<rparr>) shop =
       \<lparr>data_file = Some [(''w1'', widget\<lparr>stock_quantity := 20\<rparr>)], saves = 2\<rparr>
   \<and> store_invariant (serve (POST_purchase ''w1'' \<lparr>quantity = 5\<rparr>) shop)
   \<and> serve_all [POST_products widget] empty_store = shop
   \<and> store_invariant (serve_all [POST_products widget] empty_store)
   \<and> serve_all [POST_products full_stock, POST_restock ''f1''] empty_store =
       \<lparr>data_file = None, saves = 2\<rparr>
   \<and> store_invariant (serve_all [POST_products full_stock, POST_restock ''f1''] empty_store)"
proof -
  have h: "store_invariant shop"
    by (simp add: store_invariant_def load_data_shop) (simp add: widget_def nonneg_quantities_def)
  have f: "store_invariant (serve_all [POST_products full_stock, POST_restock ''f1''] empty_store)"
    using store_invariant_reachable [of "[POST_products full_stock, POST_restock ''f1'']"]
    by blast
  show ?thesis
    using h f store_invariant_reachable [of "[POST_products widget]" shop
            "POST_purchase ''w1'' \<lparr>quantity = 5\<rparr>"]
    by (simp only: serve_purchase_shop serve_add_widget serve_add_restock_full)
qed

end
